theory Spec2Isabelle
  imports Main
begin

section \<open>Python values, strings and exceptions\<close>

text \<open>
  A Python \<open>str\<close> is a sequence of Unicode code points, and \<open>len\<close> counts code points.
  A code point is a natural number, so that the non-ASCII characters of the source
  (the argument of \<open>lstrip\<close> in \<open>generate_notes\<close>) are what the interpreter reads.
\<close>

type_synonym uchar = nat
type_synonym ustring = "uchar list"

definition ustr :: "string \<Rightarrow> ustring" where
  "ustr s = map of_char s"

text \<open>The values that cross the JSON boundary: what \<open>jsonify\<close> receives and what
  \<open>request.get_json()\<close> returns. A dict literal is an association list in source order.\<close>

datatype pyval =
    PNone
  | PBool bool
  | PInt int
  | PStr ustring
  | PList "pyval list"
  | PDict "(ustring \<times> pyval) list"

text \<open>Exceptions (subclasses of \<open>Exception\<close>). Only \<open>RequestEntityTooLarge\<close> is told apart
  by the handlers; every other exception is seen through \<open>str(e)\<close> alone.\<close>

datatype exn = RequestEntityTooLarge | Error ustring

fun str_exn :: "exn \<Rightarrow> ustring" where
  "str_exn RequestEntityTooLarge =
     ustr ''413 Request Entity Too Large: The data value transmitted exceeds the capacity limit.''"
| "str_exn (Error m) = m"

text \<open>\<open>str(n)\<close> for a non-negative integer.\<close>

fun str_nat :: "nat \<Rightarrow> ustring" where
  "str_nat n = (if n < 10 then [48 + n] else str_nat (n div 10) @ [48 + n mod 10])"

declare str_nat.simps [simp del]

subsection \<open>The string methods the parsers use\<close>

text \<open>\<open>str.isspace\<close> on one code point: the white space that \<open>str.strip()\<close> removes.\<close>

definition isspace :: "uchar \<Rightarrow> bool" where
  "isspace c \<longleftrightarrow>
     (9 \<le> c \<and> c \<le> 13) \<or> (28 \<le> c \<and> c \<le> 32) \<or> c = 133 \<or> c = 160 \<or> c = 5760 \<or>
     (8192 \<le> c \<and> c \<le> 8202) \<or> c = 8232 \<or> c = 8233 \<or> c = 8239 \<or> c = 8287 \<or> c = 12288"

definition lstrip :: "ustring \<Rightarrow> ustring" where
  "lstrip s = dropWhile isspace s"

definition rstrip :: "ustring \<Rightarrow> ustring" where
  "rstrip s = rev (dropWhile isspace (rev s))"

definition strip :: "ustring \<Rightarrow> ustring" where
  "strip s = rstrip (lstrip s)"

text \<open>\<open>s.lstrip(chars)\<close>: drops the leading code points that occur in \<open>chars\<close>.\<close>

definition lstrip_chars :: "ustring \<Rightarrow> ustring \<Rightarrow> ustring" where
  "lstrip_chars chars s = dropWhile (\<lambda>c. c \<in> set chars) s"

text \<open>\<open>s.split('\n')\<close>: never empty, \<open>''.split('\n') == ['']\<close>.\<close>

fun split_nl :: "ustring \<Rightarrow> ustring list" where
  "split_nl [] = [[]]"
| "split_nl (c # cs) =
     (if c = 10 then [] # split_nl cs
      else (case split_nl cs of [] \<Rightarrow> [[c]] | l # ls \<Rightarrow> (c # l) # ls))"

definition startswith :: "ustring \<Rightarrow> ustring \<Rightarrow> bool" where
  "startswith p s \<longleftrightarrow> take (length p) s = p"

text \<open>\<open>p in s\<close> on strings: \<open>p\<close> occurs in \<open>s\<close> as a contiguous run.\<close>

fun contains :: "ustring \<Rightarrow> ustring \<Rightarrow> bool" where
  "contains p [] \<longleftrightarrow> p = []"
| "contains p (c # cs) \<longleftrightarrow> startswith p (c # cs) \<or> contains p cs"

section \<open>ai\_service.py\<close>

subsection \<open>The service's state and its collaborators\<close>

text \<open>
  The FAISS index is opaque to the service; it is identified by the texts it was built
  from. The three prompt templates are fixed string literals of the source, named here.
\<close>

datatype vstore = FAISS (index_texts: "ustring list")

datatype prompt = SummaryPrompt | NotesPrompt | FlashcardsPrompt

datatype level = INFO | WARNING | ERROR

text \<open>The calls into third-party libraries and the operating system, with the arguments
  the source passes, in the order they are made.\<close>

datatype call =
    SplitText nat nat ustring
  | FromTexts "ustring list"
  | QaRun vstore nat prompt
  | QaCall vstore nat pyval
  | ExtractText ustring
  | FileSave ustring
  | OsRemove ustring

text \<open>\<open>self.text_splitter\<close>, assigned once in \<open>AIService.__init__\<close> and by no method.\<close>

record splitter =
  chunk_size :: nat
  chunk_overlap :: nat

definition text_splitter :: splitter where
  "text_splitter = \<lparr>chunk_size = 1000, chunk_overlap = 200\<rparr>"

text \<open>
  What the collaborators answer. Each may raise. An answer that can differ from one call
  to the next (embedding, the model, the file system, the PDF reader) takes the number of
  calls made so far as its first argument. \<open>extract_text\<close> belongs to the module
  \<open>pdf_processor\<close>, which reads the file and returns its text.
\<close>

record env =
  split_text :: "nat \<Rightarrow> nat \<Rightarrow> ustring \<Rightarrow> exn + ustring list"
  from_texts_error :: "nat \<Rightarrow> ustring list \<Rightarrow> exn option"
  qa_run :: "nat \<Rightarrow> vstore \<Rightarrow> nat \<Rightarrow> prompt \<Rightarrow> exn + ustring"
  qa_call :: "nat \<Rightarrow> vstore \<Rightarrow> nat \<Rightarrow> pyval \<Rightarrow> exn + pyval"
  uuid_str :: "nat \<Rightarrow> ustring"
  extract_text :: "nat \<Rightarrow> ustring \<Rightarrow> exn + ustring"
  secure_filename :: "ustring \<Rightarrow> ustring"
  save_error :: "nat \<Rightarrow> ustring \<Rightarrow> exn option"
  remove_error :: "nat \<Rightarrow> ustring \<Rightarrow> exn option"

text \<open>
  The process state: the attribute \<open>vectorStore\<close> of the one \<open>AIService\<close> object
  (\<open>None\<close> while the attribute has never been assigned: \<open>__init__\<close> does not set it),
  the log, the calls made, the number of \<open>uuid.uuid4()\<close> draws, and the upload directory.
\<close>

record world =
  vectorStore :: "vstore option"
  logged :: "(level \<times> ustring) list"
  calls :: "call list"
  uuid_count :: nat
  upload_dir :: "ustring \<rightharpoonup> nat list"

definition logger :: "level \<Rightarrow> ustring \<Rightarrow> world \<Rightarrow> world" where
  "logger lv m w = w\<lparr>logged := logged w @ [(lv, m)]\<rparr>"

definition record_call :: "call \<Rightarrow> world \<Rightarrow> world" where
  "record_call c w = w\<lparr>calls := calls w @ [c]\<rparr>"

text \<open>\<open>str(uuid.uuid4())\<close>\<close>

definition uuid4 :: "env \<Rightarrow> world \<Rightarrow> ustring \<times> world" where
  "uuid4 env w = (uuid_str env (uuid_count w), w\<lparr>uuid_count := Suc (uuid_count w)\<rparr>)"

text \<open>Reading \<open>self.vectorStore\<close> before any assignment.\<close>

definition no_vectorStore :: exn where
  "no_vectorStore =
     Error ([39] @ ustr ''AIService'' @ [39] @ ustr '' object has no attribute '' @
            [39] @ ustr ''vectorStore'' @ [39])"

subsection \<open>create\_vector\_store\<close>

definition create_vector_store :: "env \<Rightarrow> ustring \<Rightarrow> world \<Rightarrow> (exn + vstore) \<times> world" where
  "create_vector_store env text w =
     (let w1 = record_call (SplitText (chunk_size text_splitter) (chunk_overlap text_splitter) text) w in
      case split_text env (chunk_size text_splitter) (chunk_overlap text_splitter) text of
        Inl e \<Rightarrow> (Inl e, logger ERROR (ustr ''Error creating vector store: '' @ str_exn e) w1)
      | Inr texts \<Rightarrow>
          (let w2 = logger INFO (ustr ''Split text into '' @ str_nat (length texts) @ ustr '' chunks'') w1;
               w3 = record_call (FromTexts texts) w2 in
           case from_texts_error env (length (calls w2)) texts of
             Some e \<Rightarrow> (Inl e, logger ERROR (ustr ''Error creating vector store: '' @ str_exn e) w3)
           | None \<Rightarrow>
               (let w4 = logger INFO (ustr ''Vector store created successfully'') w3 in
                (Inr (FAISS texts), w4\<lparr>vectorStore := Some (FAISS texts)\<rparr>))))"

subsection \<open>generate\_summary\<close>

definition summary_fallback :: ustring where
  "summary_fallback = ustr ''Failed to generate summary. Please try again.''"

text \<open>The template has no replacement field, so \<open>prompt.format(text=text[:2000])\<close> is the
  template itself.\<close>

definition generate_summary :: "env \<Rightarrow> ustring \<Rightarrow> world \<Rightarrow> ustring \<times> world" where
  "generate_summary env text w =
     (case create_vector_store env text w of
        (Inl e, w1) \<Rightarrow>
          (summary_fallback, logger ERROR (ustr ''Error generating summary: '' @ str_exn e) w1)
      | (Inr vector_store, w1) \<Rightarrow>
          (let w2 = record_call (QaRun vector_store 3 SummaryPrompt) w1 in
           case qa_run env (length (calls w1)) vector_store 3 SummaryPrompt of
             Inl e \<Rightarrow>
               (summary_fallback, logger ERROR (ustr ''Error generating summary: '' @ str_exn e) w2)
           | Inr result \<Rightarrow> (strip result, w2)))"

subsection \<open>generate\_notes\<close>

text \<open>The argument of \<open>lstrip\<close> as the source file has it: U+00E2, U+20AC, U+00A2, then
  \<open>-*1234567890. \<close>.\<close>

definition note_prefix_chars :: ustring where
  "note_prefix_chars = [226, 8364, 162] @ ustr ''-*1234567890. ''"

fun notes_loop :: "ustring list \<Rightarrow> ustring list \<Rightarrow> ustring list" where
  "notes_loop notes [] = notes"
| "notes_loop notes (l # lines) =
     (let line = strip l;
          clean_line = lstrip_chars note_prefix_chars line
      in if clean_line \<noteq> [] \<and> length clean_line > 10
         then notes_loop (notes @ [clean_line]) lines
         else notes_loop notes lines)"

definition parse_notes :: "ustring \<Rightarrow> ustring list" where
  "parse_notes result = take 10 (notes_loop [] (split_nl (strip result)))"

definition notes_fallback :: "ustring list" where
  "notes_fallback = [ustr ''Failed to generate notes. Please try again.'']"

definition generate_notes :: "env \<Rightarrow> ustring \<Rightarrow> world \<Rightarrow> ustring list \<times> world" where
  "generate_notes env text w =
     (case vectorStore w of
        None \<Rightarrow>
          (notes_fallback, logger ERROR (ustr ''Error generating notes: '' @ str_exn no_vectorStore) w)
      | Some vector_store \<Rightarrow>
          (let w1 = record_call (QaRun vector_store 4 NotesPrompt) w in
           case qa_run env (length (calls w)) vector_store 4 NotesPrompt of
             Inl e \<Rightarrow>
               (notes_fallback, logger ERROR (ustr ''Error generating notes: '' @ str_exn e) w1)
           | Inr result \<Rightarrow> (parse_notes result, w1)))"

subsection \<open>generate\_flashcards\<close>

definition flashcard :: "ustring \<Rightarrow> ustring \<Rightarrow> ustring \<Rightarrow> pyval" where
  "flashcard i q a =
     PDict [(ustr ''id'', PStr i), (ustr ''question'', PStr q), (ustr ''answer'', PStr a)]"

text \<open>\<open>flashcards.append({'id': str(uuid.uuid4()), ...})\<close>\<close>

definition append_flashcard ::
  "env \<Rightarrow> pyval list \<Rightarrow> ustring \<Rightarrow> ustring \<Rightarrow> world \<Rightarrow> pyval list \<times> world" where
  "append_flashcard env flashcards q a w =
     (case uuid4 env w of (i, w') \<Rightarrow> (flashcards @ [flashcard i q a], w'))"

text \<open>The loop over the lines; its state is \<open>flashcards\<close>, \<open>current_question\<close> and
  \<open>current_answer\<close>.\<close>

fun flashcards_loop ::
  "env \<Rightarrow> pyval list \<Rightarrow> ustring \<Rightarrow> ustring \<Rightarrow> ustring list \<Rightarrow> world
     \<Rightarrow> (pyval list \<times> ustring \<times> ustring) \<times> world" where
  "flashcards_loop env flashcards current_question current_answer [] w =
     ((flashcards, current_question, current_answer), w)"
| "flashcards_loop env flashcards current_question current_answer (l # lines) w =
     (let line = strip l in
      if startswith (ustr ''Q:'') line then
        (if current_question \<noteq> [] \<and> current_answer \<noteq> [] then
           (case append_flashcard env flashcards current_question current_answer w of
              (flashcards', w') \<Rightarrow> flashcards_loop env flashcards' (strip (drop 2 line)) [] lines w')
         else flashcards_loop env flashcards (strip (drop 2 line)) [] lines w)
      else if startswith (ustr ''A:'') line then
        flashcards_loop env flashcards current_question (strip (drop 2 line)) lines w
      else if line \<noteq> [] \<and> current_answer \<noteq> [] then
        flashcards_loop env flashcards current_question (current_answer @ ustr '' '' @ line) lines w
      else flashcards_loop env flashcards current_question current_answer lines w)"

definition parse_flashcards :: "env \<Rightarrow> ustring \<Rightarrow> world \<Rightarrow> pyval list \<times> world" where
  "parse_flashcards env result w =
     (case flashcards_loop env [] [] [] (split_nl (strip result)) w of
        ((flashcards, current_question, current_answer), w1) \<Rightarrow>
          (case (if current_question \<noteq> [] \<and> current_answer \<noteq> []
                 then append_flashcard env flashcards current_question current_answer w1
                 else (flashcards, w1)) of
             (flashcards', w2) \<Rightarrow> (take 8 flashcards', w2)))"

definition flashcards_fallback :: "env \<Rightarrow> exn \<Rightarrow> world \<Rightarrow> pyval list \<times> world" where
  "flashcards_fallback env e w =
     (case uuid4 env (logger ERROR (ustr ''Error generating flashcards: '' @ str_exn e) w) of
        (i, w') \<Rightarrow>
          ([flashcard i (ustr ''Error generating flashcards'')
              (ustr ''Please try again with a different document.'')], w'))"

definition generate_flashcards :: "env \<Rightarrow> ustring \<Rightarrow> world \<Rightarrow> pyval list \<times> world" where
  "generate_flashcards env text w =
     (case vectorStore w of
        None \<Rightarrow> flashcards_fallback env no_vectorStore w
      | Some vector_store \<Rightarrow>
          (let w1 = record_call (QaRun vector_store 4 FlashcardsPrompt) w in
           case qa_run env (length (calls w)) vector_store 4 FlashcardsPrompt of
             Inl e \<Rightarrow> flashcards_fallback env e w1
           | Inr result \<Rightarrow> parse_flashcards env result w1))"

subsection \<open>generate\_study\_materials\<close>

definition study_materials_dict :: "ustring \<Rightarrow> ustring list \<Rightarrow> pyval list \<Rightarrow> pyval" where
  "study_materials_dict summary notes flashcards =
     PDict [(ustr ''summary'', PStr summary),
            (ustr ''notes'', PList (map PStr notes)),
            (ustr ''flashcards'', PList flashcards)]"

text \<open>The body of the \<open>try\<close> block: it raises exactly when its own call of
  \<open>create_vector_store\<close> does, the three generators catching their own failures.\<close>

definition study_materials_try :: "env \<Rightarrow> ustring \<Rightarrow> world \<Rightarrow> (exn + pyval) \<times> world" where
  "study_materials_try env text w =
     (case create_vector_store env text (logger INFO (ustr ''Starting study materials generation...'') w) of
        (Inl e, w1) \<Rightarrow> (Inl e, w1)
      | (Inr vector_store, w1) \<Rightarrow>
          (case generate_summary env text w1 of (summary, w2) \<Rightarrow>
           case generate_notes env text w2 of (notes, w3) \<Rightarrow>
           case generate_flashcards env text w3 of (flashcards, w4) \<Rightarrow>
             (Inr (study_materials_dict summary notes flashcards),
              logger INFO (ustr ''Study materials generated successfully'') w4)))"

definition generate_study_materials :: "env \<Rightarrow> ustring \<Rightarrow> world \<Rightarrow> pyval \<times> world" where
  "generate_study_materials env text w =
     (case study_materials_try env text w of
        (Inr study_materials, w') \<Rightarrow> (study_materials, w')
      | (Inl e, w1) \<Rightarrow>
          (case uuid4 env (logger ERROR (ustr ''Error generating study materials: '' @ str_exn e) w1) of
             (i, w') \<Rightarrow>
               (study_materials_dict (ustr ''Failed to generate summary.'')
                  [ustr ''Failed to generate notes.'']
                  [flashcard i (ustr ''Error occurred'') (ustr ''Please try again.'')], w')))"

subsection \<open>query\_response\<close>

definition query_fallback :: "env \<Rightarrow> exn \<Rightarrow> world \<Rightarrow> pyval \<times> world" where
  "query_fallback env e w =
     (case uuid4 env (logger ERROR (ustr ''Error generating flashcards: '' @ str_exn e) w) of
        (i, w') \<Rightarrow>
          (PList [PDict [(ustr ''id'', PStr i), (ustr ''message'', PStr (ustr ''Something went wrong''))]],
           w'))"

definition query_response :: "env \<Rightarrow> pyval \<Rightarrow> world \<Rightarrow> pyval \<times> world" where
  "query_response env text w =
     (case vectorStore w of
        None \<Rightarrow> query_fallback env no_vectorStore w
      | Some vector_store \<Rightarrow>
          (let w1 = record_call (QaCall vector_store 4 text) w in
           case qa_call env (length (calls w)) vector_store 4 text of
             Inl e \<Rightarrow> query_fallback env e w1
           | Inr result \<Rightarrow> (result, w1)))"

section \<open>app.py\<close>

subsection \<open>Requests and responses\<close>

record upload =
  filename :: ustring
  content :: "nat list"

text \<open>
  A request as Flask presents it: the length of its body; the file parts of its multipart
  form by field name; the exception, if any, that Werkzeug's form parser raises when the
  form is read (\<open>RequestEntityTooLarge\<close> when a part that is not a file is longer than
  \<open>max_form_memory_size\<close>, 500000 bytes unless configured, or when the form has more
  parts than \<open>max_form_parts\<close>, 1000 unless configured); and what
  \<open>request.get_json()\<close> gives (it may raise).
\<close>

record request =
  content_length :: nat
  form_files :: "(ustring \<times> upload) list"
  form_error :: "exn option"
  json_body :: "exn + pyval"

type_synonym response = "nat \<times> pyval"

definition UPLOAD_FOLDER :: ustring where
  "UPLOAD_FOLDER = ustr ''uploads''"

definition ALLOWED_EXTENSIONS :: "ustring list" where
  "ALLOWED_EXTENSIONS = [ustr ''pdf'']"

definition MAX_CONTENT_LENGTH :: nat where
  "MAX_CONTENT_LENGTH = 4 * 1024 * 1024"

text \<open>
  Flask reads the form on the first access to \<open>request.files\<close>. It raises
  \<open>RequestEntityTooLarge\<close> there when the body is longer than
  \<open>app.config['MAX_CONTENT_LENGTH']\<close>; otherwise the form parser runs, and what it
  raises, \<open>request.files\<close> raises.
\<close>

definition request_files :: "request \<Rightarrow> exn + (ustring \<times> upload) list" where
  "request_files req =
     (if content_length req > MAX_CONTENT_LENGTH then Inl RequestEntityTooLarge
      else (case form_error req of
              Some e \<Rightarrow> Inl e
            | None \<Rightarrow> Inr (form_files req)))"

text \<open>\<open>str.lower\<close> on one code point, for the ASCII letters. The result is only ever
  compared with \<open>pdf\<close>, and \<open>P\<close>, \<open>D\<close>, \<open>F\<close> are the only other code points that
  \<open>str.lower\<close> maps to \<open>p\<close>, \<open>d\<close>, \<open>f\<close>.\<close>

definition lower_char :: "uchar \<Rightarrow> uchar" where
  "lower_char c = (if 65 \<le> c \<and> c \<le> 90 then c + 32 else c)"

definition lower :: "ustring \<Rightarrow> ustring" where
  "lower s = map lower_char s"

text \<open>\<open>s.rsplit('.', 1)[1]\<close> for an \<open>s\<close> that has a dot: what follows the last dot.\<close>

definition after_last_dot :: "ustring \<Rightarrow> ustring" where
  "after_last_dot s = rev (takeWhile (\<lambda>c. c \<noteq> 46) (rev s))"

definition allowed_file :: "ustring \<Rightarrow> bool" where
  "allowed_file fn \<longleftrightarrow> 46 \<in> set fn \<and> lower (after_last_dot fn) \<in> set ALLOWED_EXTENSIONS"

definition error_body :: "ustring \<Rightarrow> pyval" where
  "error_body m = PDict [(ustr ''error'', PStr m)]"

subsection \<open>process\_pdf\<close>

text \<open>The inner \<open>try\<close> block with its \<open>except Exception\<close>: it always comes to a response.\<close>

definition process_saved :: "env \<Rightarrow> ustring \<Rightarrow> world \<Rightarrow> response \<times> world" where
  "process_saved env filepath w =
     (let w1 = record_call (ExtractText filepath) (logger INFO (ustr ''Extracting text from PDF...'') w) in
      case extract_text env (length (calls w)) filepath of
        Inl e \<Rightarrow>
          ((500, error_body (ustr ''Failed to process PDF: '' @ str_exn e)),
           logger ERROR (ustr ''Error processing PDF: '' @ str_exn e) w1)
      | Inr text_content \<Rightarrow>
          if strip text_content = [] then
            ((400, error_body (ustr ''No text could be extracted from the PDF'')), w1)
          else
            (case generate_study_materials env text_content
                    (logger INFO (ustr ''Generating study materials...'') w1) of
               (study_materials, w2) \<Rightarrow>
                 ((200, study_materials),
                  logger INFO (ustr ''Study materials generated successfully'') w2)))"

text \<open>The \<open>finally\<close> block.\<close>

definition cleanup :: "env \<Rightarrow> ustring \<Rightarrow> world \<Rightarrow> world" where
  "cleanup env filepath w =
     (let w1 = record_call (OsRemove filepath) w in
      case remove_error env (length (calls w)) filepath of
        None \<Rightarrow>
          logger INFO (ustr ''Cleaned up file: '' @ filepath)
            (w1\<lparr>upload_dir := (upload_dir w1)(filepath := None)\<rparr>)
      | Some e \<Rightarrow>
          logger WARNING (ustr ''Failed to clean up file '' @ filepath @ ustr '': '' @ str_exn e) w1)"

text \<open>The two outer \<open>except\<close> clauses.\<close>

definition outer_except :: "exn \<Rightarrow> world \<Rightarrow> (exn + response) \<times> world" where
  "outer_except e w =
     (case e of
        RequestEntityTooLarge \<Rightarrow> (Inl e, w)
      | Error m \<Rightarrow>
          (Inr (500, error_body (ustr ''An unexpected error occurred'')),
           logger ERROR (ustr ''Unexpected error: '' @ str_exn e) w))"

text \<open>\<open>os.path.join(app.config['UPLOAD_FOLDER'], unique_filename)\<close> with
  \<open>unique_filename = f"{uuid.uuid4()}_{filename}"\<close>.\<close>

definition upload_path :: "ustring \<Rightarrow> ustring \<Rightarrow> ustring" where
  "upload_path u fname = UPLOAD_FOLDER @ ustr ''/'' @ u @ ustr ''_'' @ fname"

definition process_pdf :: "env \<Rightarrow> request \<Rightarrow> world \<Rightarrow> (exn + response) \<times> world" where
  "process_pdf env req w =
     (case request_files req of
        Inl e \<Rightarrow> outer_except e w
      | Inr files \<Rightarrow>
          (case map_of files (ustr ''pdf'') of
             None \<Rightarrow> (Inr (400, error_body (ustr ''No file provided'')), w)
           | Some file \<Rightarrow>
               if filename file = [] then
                 (Inr (400, error_body (ustr ''No file selected'')), w)
               else if \<not> allowed_file (filename file) then
                 (Inr (400, error_body (ustr ''Only PDF files are allowed'')), w)
               else
                 (case uuid4 env w of (u, w1) \<Rightarrow>
                   (let filepath = upload_path u (secure_filename env (filename file));
                        w2 = record_call (FileSave filepath) w1 in
                    case save_error env (length (calls w1)) filepath of
                      Some e \<Rightarrow> outer_except e w2
                    | None \<Rightarrow>
                        (case process_saved env filepath
                                (logger INFO (ustr ''File uploaded: '' @ filepath)
                                   (w2\<lparr>upload_dir := (upload_dir w2)(filepath \<mapsto> content file)\<rparr>)) of
                           (resp, w3) \<Rightarrow> (Inr resp, cleanup env filepath w3))))))"

text \<open>\<open>@app.errorhandler(RequestEntityTooLarge)\<close>\<close>

definition too_large :: response where
  "too_large = (413, error_body (ustr ''File too large. Maximum size is 4MB''))"

text \<open>The route as Flask serves it: an exception that leaves the view goes to its
  registered error handler, any other to Flask's own 500 page.\<close>

definition serve :: "(exn + response) \<times> world \<Rightarrow> response \<times> world" where
  "serve r =
     (case r of
        (Inr resp, w) \<Rightarrow> (resp, w)
      | (Inl RequestEntityTooLarge, w) \<Rightarrow> (too_large, w)
      | (Inl (Error m), w) \<Rightarrow> ((500, PStr (ustr ''Internal Server Error'')), w))"

definition post_process_pdf :: "env \<Rightarrow> request \<Rightarrow> world \<Rightarrow> response \<times> world" where
  "post_process_pdf env req w = serve (process_pdf env req w)"

subsection \<open>query\_pdf\<close>

text \<open>Truth value of a Python object, \<open>key in data\<close> and \<open>data[key]\<close> for a string key.\<close>

fun truthy :: "pyval \<Rightarrow> bool" where
  "truthy PNone = False"
| "truthy (PBool b) = b"
| "truthy (PInt n) = (n \<noteq> 0)"
| "truthy (PStr s) = (s \<noteq> [])"
| "truthy (PList xs) = (xs \<noteq> [])"
| "truthy (PDict kvs) = (kvs \<noteq> [])"

fun type_name :: "pyval \<Rightarrow> ustring" where
  "type_name PNone = ustr ''NoneType''"
| "type_name (PBool b) = ustr ''bool''"
| "type_name (PInt n) = ustr ''int''"
| "type_name (PStr s) = ustr ''str''"
| "type_name (PList xs) = ustr ''list''"
| "type_name (PDict kvs) = ustr ''dict''"

text \<open>A name between single quotes, as in the text of a \<open>TypeError\<close> or \<open>KeyError\<close>.\<close>

definition quoted :: "ustring \<Rightarrow> ustring" where
  "quoted s = [39] @ s @ [39]"

fun py_in :: "ustring \<Rightarrow> pyval \<Rightarrow> exn + bool" where
  "py_in k (PDict kvs) = Inr (k \<in> set (map fst kvs))"
| "py_in k (PList xs) = Inr (PStr k \<in> set xs)"
| "py_in k (PStr s) = Inr (contains k s)"
| "py_in k v =
     Inl (Error (ustr ''argument of type '' @ quoted (type_name v) @ ustr '' is not iterable''))"

fun getitem :: "pyval \<Rightarrow> ustring \<Rightarrow> exn + pyval" where
  "getitem (PDict kvs) k =
     (case map_of kvs k of None \<Rightarrow> Inl (Error (quoted k)) | Some v \<Rightarrow> Inr v)"
| "getitem (PStr s) k =
     Inl (Error (ustr ''string indices must be integers, not '' @ quoted (ustr ''str'')))"
| "getitem (PList xs) k =
     Inl (Error (ustr ''list indices must be integers or slices, not str''))"
| "getitem v k = Inl (Error (quoted (type_name v) @ ustr '' object is not subscriptable''))"

definition query_except :: "exn \<Rightarrow> world \<Rightarrow> response \<times> world" where
  "query_except e w =
     ((500, error_body (ustr ''Failed to get response'')),
      logger ERROR (ustr ''Error in query endpoint: '' @ str_exn e) w)"

definition query_pdf :: "env \<Rightarrow> request \<Rightarrow> world \<Rightarrow> response \<times> world" where
  "query_pdf env req w =
     (case json_body req of
        Inl e \<Rightarrow> query_except e w
      | Inr data \<Rightarrow>
          if \<not> truthy data then ((400, error_body (ustr ''Message is required'')), w)
          else
            (case py_in (ustr ''message'') data of
               Inl e \<Rightarrow> query_except e w
             | Inr False \<Rightarrow> ((400, error_body (ustr ''Message is required'')), w)
             | Inr True \<Rightarrow>
                 (case getitem data (ustr ''message'') of
                    Inl e \<Rightarrow> query_except e w
                  | Inr user_message \<Rightarrow>
                      (case query_response env user_message w of
                         (response, w') \<Rightarrow> ((200, PDict [(ustr ''response'', response)]), w')))))"

section \<open>The specification's reading of the parsers and payloads\<close>

subsection \<open>Flashcards\<close>

text \<open>
  The flashcard parser as the specification words it, over the stripped lines of the
  reply. Every line that begins with \<open>Q:\<close> starts a record whose question is the rest of
  that line, stripped. The answer of the record comes from the lines up to the next
  question line: a line that begins with \<open>A:\<close> sets it to its remainder, stripped, and a
  later non-empty line is joined to it with one space while an answer is in progress.
\<close>

fun spec_answer :: "ustring \<Rightarrow> ustring list \<Rightarrow> ustring" where
  "spec_answer a [] = a"
| "spec_answer a (l # ls) =
     (if startswith (ustr ''Q:'') l then a
      else if startswith (ustr ''A:'') l then spec_answer (strip (drop 2 l)) ls
      else if l \<noteq> [] \<and> a \<noteq> [] then spec_answer (a @ ustr '' '' @ l) ls
      else spec_answer a ls)"

fun spec_records :: "ustring list \<Rightarrow> (ustring \<times> ustring) list" where
  "spec_records [] = []"
| "spec_records (l # ls) =
     (if startswith (ustr ''Q:'') l
      then (strip (drop 2 l), spec_answer [] ls) # spec_records ls
      else spec_records ls)"

text \<open>A record is emitted only when question and answer are both non-empty.\<close>

definition complete :: "ustring \<times> ustring \<Rightarrow> bool" where
  "complete r \<longleftrightarrow> fst r \<noteq> [] \<and> snd r \<noteq> []"

text \<open>Each emitted record takes the next draw of \<open>uuid.uuid4()\<close> as its id.\<close>

fun number_cards :: "env \<Rightarrow> nat \<Rightarrow> (ustring \<times> ustring) list \<Rightarrow> pyval list" where
  "number_cards env c [] = []"
| "number_cards env c (r # rs) =
     flashcard (uuid_str env c) (fst r) (snd r) # number_cards env (Suc c) rs"

definition spec_flashcards :: "env \<Rightarrow> nat \<Rightarrow> ustring \<Rightarrow> pyval list" where
  "spec_flashcards env c reply =
     number_cards env c (take 8 (filter complete (spec_records (map strip (split_nl reply)))))"

text \<open>\<open>d.get(k)\<close> on a dict.\<close>

fun dict_get :: "pyval \<Rightarrow> ustring \<Rightarrow> pyval option" where
  "dict_get (PDict kvs) k = map_of kvs k"
| "dict_get _ k = None"

subsection \<open>Notes\<close>

text \<open>
  The notes parser as the specification words it: split the reply on newlines, strip each
  line, remove the leading characters of a given set, keep the lines whose cleaned text
  is non-empty and longer than 10 characters, in order, and return the first 10.
  The specification's set is the bullet U+2022, \<open>*\<close>, \<open>-\<close>, the digits, the period and
  the space.
\<close>

definition spec_notes :: "ustring \<Rightarrow> ustring \<Rightarrow> ustring list" where
  "spec_notes chars reply =
     take 10 (filter (\<lambda>n. n \<noteq> [] \<and> 10 < length n)
                (map (\<lambda>l. lstrip_chars chars (strip l)) (split_nl reply)))"

definition spec_note_chars :: ustring where
  "spec_note_chars = 8226 # ustr ''*-1234567890. ''"

subsection \<open>Payload shapes\<close>

fun is_text :: "pyval \<Rightarrow> bool" where
  "is_text (PStr s) = True"
| "is_text _ = False"

text \<open>A flashcard record has exactly the keys \<open>id\<close>, \<open>question\<close>, \<open>answer\<close>, each a text.\<close>

definition is_flashcard_record :: "pyval \<Rightarrow> bool" where
  "is_flashcard_record v =
     (case v of
        PDict kvs \<Rightarrow>
          map fst kvs = [ustr ''id'', ustr ''question'', ustr ''answer''] \<and>
          list_all is_text (map snd kvs)
      | _ \<Rightarrow> False)"

text \<open>Study materials have exactly the keys \<open>summary\<close> (a text), \<open>notes\<close> (a sequence of
  texts) and \<open>flashcards\<close> (a sequence of flashcard records).\<close>

definition is_study_materials :: "pyval \<Rightarrow> bool" where
  "is_study_materials v =
     (case v of
        PDict kvs \<Rightarrow>
          map fst kvs = [ustr ''summary'', ustr ''notes'', ustr ''flashcards''] \<and>
          (case map snd kvs of
             [s, PList ns, PList fcs] \<Rightarrow>
               is_text s \<and> list_all is_text ns \<and> list_all is_flashcard_record fcs
           | _ \<Rightarrow> False)
      | _ \<Rightarrow> False)"

definition has_error_key :: "pyval \<Rightarrow> bool" where
  "has_error_key body \<longleftrightarrow> dict_get body (ustr ''error'') \<noteq> None"

text \<open>The filename ends in a \<open>.pdf\<close> extension, letter case apart.\<close>

definition endswith :: "ustring \<Rightarrow> ustring \<Rightarrow> bool" where
  "endswith p s \<longleftrightarrow> length p \<le> length s \<and> drop (length s - length p) s = p"

definition has_pdf_extension :: "ustring \<Rightarrow> bool" where
  "has_pdf_extension fn \<longleftrightarrow> endswith (ustr ''.pdf'') (lower fn)"

subsection \<open>The path of the saved upload\<close>

text \<open>The path under which \<open>process_pdf\<close> saves the upload \<open>f\<close> when it starts in \<open>w\<close>.\<close>

definition unique_path :: "env \<Rightarrow> upload \<Rightarrow> world \<Rightarrow> ustring" where
  "unique_path env f w = upload_path (uuid_str env (uuid_count w)) (secure_filename env (filename f))"

text \<open>A request that passes the checks made before the file is saved.\<close>

definition accepted :: "request \<Rightarrow> upload \<Rightarrow> bool" where
  "accepted req f \<longleftrightarrow>
     request_files req = Inr (form_files req) \<and>
     map_of (form_files req) (ustr ''pdf'') = Some f \<and>
     filename f \<noteq> [] \<and> allowed_file (filename f)"

section \<open>Sample collaborators, state and requests\<close>

text \<open>A model reply for each prompt: a one-line summary, one bulleted note, one flashcard.\<close>

fun sample_reply :: "prompt \<Rightarrow> ustring" where
  "sample_reply SummaryPrompt = ustr '' Cells. ''"
| "sample_reply NotesPrompt = 8226 # ustr '' Cells divide by mitosis''"
| "sample_reply FlashcardsPrompt =
     ustr ''Q: Why?'' @ [10] @ ustr ''A: So'' @ [10] @ ustr ''Q: How?'' @ [10] @ ustr ''A: Thus''"

text \<open>Collaborators that never fail; the n-th identifier is \<open>u\<close> followed by the code
  point \<open>n\<close>.\<close>

definition sample_env :: env where
  "sample_env =
     \<lparr>split_text = (\<lambda>cs ov t. Inr [t]),
      from_texts_error = (\<lambda>n ts. None),
      qa_run = (\<lambda>n vs k p. Inr (sample_reply p)),
      qa_call = (\<lambda>n vs k q. Inr (PDict [(ustr ''result'', PStr (ustr ''ok''))])),
      uuid_str = (\<lambda>n. ustr ''u'' @ [n]),
      extract_text = (\<lambda>n p. Inr (ustr ''Cells'')),
      secure_filename = (\<lambda>s. s),
      save_error = (\<lambda>n p. None),
      remove_error = (\<lambda>n p. None)\<rparr>"

text \<open>The same collaborators, except that \<open>os.remove\<close> fails, that the PDF reader
  fails, that saving the upload fails, or that the embedding fails.\<close>

definition busy_env :: env where
  "busy_env = sample_env\<lparr>remove_error := (\<lambda>n p. Some (Error (ustr ''busy'')))\<rparr>"

definition unreadable_env :: env where
  "unreadable_env = sample_env\<lparr>extract_text := (\<lambda>n p. Inl (Error (ustr ''bad xref'')))\<rparr>"

definition full_disk_env :: env where
  "full_disk_env = sample_env\<lparr>save_error := (\<lambda>n p. Some (Error (ustr ''disk full'')))\<rparr>"

definition offline_env :: env where
  "offline_env = sample_env\<lparr>from_texts_error := (\<lambda>n ts. Some (Error (ustr ''no model'')))\<rparr>"

text \<open>The process right after start: nothing uploaded, nothing logged.\<close>

definition fresh_world :: world where
  "fresh_world =
     \<lparr>vectorStore = None, logged = [], calls = [], uuid_count = 0, upload_dir = Map.empty\<rparr>"

text \<open>The process after an upload of the text \<open>Cells\<close>.\<close>

definition ready_world :: world where
  "ready_world = fresh_world\<lparr>vectorStore := Some (FAISS [ustr ''Cells''])\<rparr>"

definition sample_upload :: upload where
  "sample_upload = \<lparr>filename = ustr ''a.PDF'', content = [37]\<rparr>"

text \<open>A request of 5 MB whose form has no file part.\<close>

definition oversized_request :: request where
  "oversized_request =
     \<lparr>content_length = 5000000, form_files = [], form_error = None, json_body = Inr PNone\<rparr>"

text \<open>A request of 62970 bytes whose form has 1001 empty text fields and no file part:
  within the length limit, and refused by the form parser.\<close>

definition crowded_request :: request where
  "crowded_request =
     \<lparr>content_length = 62970, form_files = [], form_error = Some RequestEntityTooLarge,
      json_body = Inr PNone\<rparr>"

definition sample_request :: request where
  "sample_request =
     \<lparr>content_length = 10,
      form_files = [(ustr ''pdf'', sample_upload)],
      form_error = None,
      json_body = Inr (PDict [(ustr ''message'', PStr (ustr ''hi''))])\<rparr>"

section \<open>Properties\<close>

subsection \<open>State bookkeeping\<close>

lemma logger_fields [simp]:
  "vectorStore (logger lv m w) = vectorStore w"
  "calls (logger lv m w) = calls w"
  "uuid_count (logger lv m w) = uuid_count w"
  "upload_dir (logger lv m w) = upload_dir w"
  "logged (logger lv m w) = logged w @ [(lv, m)]"
  by (simp_all add: logger_def)

lemma record_call_fields [simp]:
  "vectorStore (record_call c w) = vectorStore w"
  "calls (record_call c w) = calls w @ [c]"
  "uuid_count (record_call c w) = uuid_count w"
  "upload_dir (record_call c w) = upload_dir w"
  "logged (record_call c w) = logged w"
  by (simp_all add: record_call_def)

lemma uuid4_fields [simp]:
  "fst (uuid4 env w) = uuid_str env (uuid_count w)"
  "vectorStore (snd (uuid4 env w)) = vectorStore w"
  "calls (snd (uuid4 env w)) = calls w"
  "uuid_count (snd (uuid4 env w)) = Suc (uuid_count w)"
  "upload_dir (snd (uuid4 env w)) = upload_dir w"
  "logged (snd (uuid4 env w)) = logged w"
  by (simp_all add: uuid4_def)

lemma text_splitter_fields [simp]:
  "chunk_size text_splitter = 1000" "chunk_overlap text_splitter = 200"
  by (simp_all add: text_splitter_def)

lemma create_vector_store_Inr:
  assumes "create_vector_store env text w = (Inr vs, w')"
  shows "split_text env 1000 200 text = Inr (index_texts vs)"
    and "from_texts_error env (Suc (length (calls w))) (index_texts vs) = None"
    and "vectorStore w' = Some vs"
    and "upload_dir w' = upload_dir w"
    and "uuid_count w' = uuid_count w"
    and "calls w' = calls w @ [SplitText 1000 200 text, FromTexts (index_texts vs)]"
  using assms
  by (auto simp: create_vector_store_def Let_def split: sum.splits option.splits)

lemma create_vector_store_Inl:
  assumes "create_vector_store env text w = (Inl e, w')"
  shows "vectorStore w' = vectorStore w"
    and "upload_dir w' = upload_dir w"
    and "uuid_count w' = uuid_count w"
    and "logged w' = logged w @ drop (length (logged w)) (logged w')"
    and "last (logged w') = (ERROR, ustr ''Error creating vector store: '' @ str_exn e)"
  using assms
  by (auto simp: create_vector_store_def Let_def split: sum.splits option.splits)

lemma create_vector_store_calls:
  "calls (snd (create_vector_store env text w)) =
     calls w @ SplitText 1000 200 text #
       (case split_text env 1000 200 text of Inl e \<Rightarrow> [] | Inr texts \<Rightarrow> [FromTexts texts])"
  by (auto simp: create_vector_store_def Let_def split: sum.splits option.splits)

subsection \<open>The flashcard loop\<close>

lemma number_cards_append:
  "number_cards env c (rs @ ss) = number_cards env c rs @ number_cards env (c + length rs) ss"
  by (induction rs arbitrary: c) auto

lemma take_number_cards: "take n (number_cards env c rs) = number_cards env c (take n rs)"
proof (induction rs arbitrary: n c)
  case Nil
  then show ?case by simp
next
  case (Cons r rs)
  then show ?case by (cases n) auto
qed

lemma length_number_cards [simp]: "length (number_cards env c rs) = length rs"
  by (induction rs arbitrary: c) auto

lemma flashcards_loop_spec:
  "(case flashcards_loop env fcs q a ls w of
      ((fcs', q', a'), w') \<Rightarrow>
        (if q' \<noteq> [] \<and> a' \<noteq> [] then append_flashcard env fcs' q' a' w' else (fcs', w')))
   = (fcs @ number_cards env (uuid_count w)
              (filter complete ((q, spec_answer a (map strip ls)) # spec_records (map strip ls))),
      w\<lparr>uuid_count := uuid_count w +
           length (filter complete ((q, spec_answer a (map strip ls)) # spec_records (map strip ls)))\<rparr>)"
proof (induction ls arbitrary: fcs q a w)
  case Nil
  show ?case
    by (simp add: complete_def append_flashcard_def uuid4_def)
next
  case (Cons l ls)
  show ?case
    by (simp add: Cons.IH Let_def complete_def append_flashcard_def uuid4_def)
qed

subsection \<open>Splitting and stripping\<close>

lemma split_nl_not_Nil [simp]: "split_nl s \<noteq> []"
  by (induction s) (auto split: list.splits)

lemma split_nl_append:
  "split_nl (xs @ ys) =
     butlast (split_nl xs) @ [last (split_nl xs) @ hd (split_nl ys)] @ tl (split_nl ys)"
proof (induction xs)
  case Nil
  then show ?case by (cases "split_nl ys") auto
next
  case (Cons c xs)
  show ?case
  proof (cases "c = 10")
    case True
    then show ?thesis using Cons.IH by simp
  next
    case False
    obtain l ls where s: "split_nl xs = l # ls"
      by (cases "split_nl xs") auto
    show ?thesis
    proof (cases ls)
      case Nil
      with s False Cons.IH show ?thesis by simp
    next
      case (Cons l' ls')
      with s False Cons.IH show ?thesis by simp
    qed
  qed
qed

lemma split_nl_chars_all: "\<forall>l\<in>set (split_nl s). set l \<subseteq> set s"
proof (induction s)
  case Nil
  then show ?case by simp
next
  case (Cons c s)
  obtain l ls where s: "split_nl s = l # ls"
    by (cases "split_nl s") auto
  with Cons have "set l \<subseteq> set s" "\<forall>l'\<in>set ls. set l' \<subseteq> set s" by auto
  with s show ?case by auto
qed

lemma split_nl_chars: "l \<in> set (split_nl s) \<Longrightarrow> set l \<subseteq> set s"
  using split_nl_chars_all by blast

lemma strip_Nil [simp]: "strip [] = []"
  by (simp add: strip_def lstrip_def rstrip_def)

lemma strip_spaces:
  assumes "\<forall>c\<in>set ws. isspace c"
  shows "strip ws = []"
  using assms by (auto simp: strip_def lstrip_def rstrip_def dest: set_dropWhileD)

lemma strip_spaces_append: "\<forall>c\<in>set ws. isspace c \<Longrightarrow> strip (ws @ s) = strip s"
  by (simp add: strip_def lstrip_def rstrip_def)

lemma strip_append_spaces:
  assumes "\<forall>c\<in>set ws. isspace c"
  shows "strip (s @ ws) = strip s"
proof (cases "\<forall>c\<in>set s. isspace c")
  case True
  with assms have "\<forall>c\<in>set (s @ ws). isspace c" by auto
  then have "strip (s @ ws) = []" by (rule strip_spaces)
  with True show ?thesis by (simp add: strip_spaces)
next
  case False
  then obtain x where "x \<in> set s" "\<not> isspace x" by auto
  then have "dropWhile isspace (s @ ws) = dropWhile isspace s @ ws"
    by (rule dropWhile_append1)
  moreover have "dropWhile isspace (rev ws @ rev (dropWhile isspace s)) =
      dropWhile isspace (rev (dropWhile isspace s))"
    using assms by (intro dropWhile_append2) simp
  ultimately show ?thesis
    by (simp add: strip_def lstrip_def rstrip_def)
qed

lemma map_all_Nil: "\<forall>l\<in>set ls. f l = [] \<Longrightarrow> map f ls = replicate (length ls) []"
  by (induction ls) auto

lemma strip_decompose:
  "\<exists>ws1 ws2. r = ws1 @ strip r @ ws2 \<and> (\<forall>c\<in>set ws1. isspace c) \<and> (\<forall>c\<in>set ws2. isspace c)"
proof -
  let ?t = "dropWhile isspace r"
  let ?u = "takeWhile isspace (rev ?t)"
  have "rev (?u @ dropWhile isspace (rev ?t)) = ?t"
    by (simp only: takeWhile_dropWhile_id rev_rev_ident)
  then have "rev (dropWhile isspace (rev ?t)) @ rev ?u = ?t"
    by (simp only: rev_append)
  then have 3: "?t = strip r @ rev ?u"
    by (simp only: strip_def lstrip_def rstrip_def)
  have "r = takeWhile isspace r @ ?t" by simp
  with 3 have "r = takeWhile isspace r @ strip r @ rev ?u" by simp
  moreover have "\<forall>c\<in>set (takeWhile isspace r). isspace c"
    by (auto dest: set_takeWhileD)
  moreover have "\<forall>c\<in>set (rev ?u). isspace c"
    by (auto dest: set_takeWhileD)
  ultimately show ?thesis by blast
qed

lemma map_strip_leading:
  assumes "\<forall>c\<in>set ws. isspace c"
  shows "\<exists>m. map strip (split_nl (ws @ s)) = replicate m [] @ map strip (split_nl s)"
proof -
  obtain b bs where B: "split_nl s = b # bs"
    by (cases "split_nl s") auto
  have A: "\<forall>l\<in>set (split_nl ws). \<forall>c\<in>set l. isspace c"
    using assms split_nl_chars by blast
  then have "\<forall>l\<in>set (butlast (split_nl ws)). strip l = []"
    by (blast intro: strip_spaces dest: in_set_butlastD)
  then have b: "map strip (butlast (split_nl ws)) = replicate (length (butlast (split_nl ws))) []"
    by (rule map_all_Nil)
  have "last (split_nl ws) \<in> set (split_nl ws)" by simp
  with A have "\<forall>c\<in>set (last (split_nl ws)). isspace c" by blast
  then have l: "strip (last (split_nl ws) @ b) = strip b"
    by (rule strip_spaces_append)
  have "map strip (split_nl (ws @ s)) =
      map strip (butlast (split_nl ws)) @ [strip (last (split_nl ws) @ b)] @ map strip bs"
    by (simp add: split_nl_append B)
  also have "\<dots> = replicate (length (butlast (split_nl ws))) [] @ map strip (split_nl s)"
    by (simp only: b l B list.map append_Cons append_Nil)
  finally show ?thesis ..
qed

lemma map_strip_trailing:
  assumes "\<forall>c\<in>set ws. isspace c"
  shows "\<exists>n. map strip (split_nl (s @ ws)) = map strip (split_nl s) @ replicate n []"
proof -
  obtain d ds where D: "split_nl ws = d # ds"
    by (cases "split_nl ws") auto
  have all: "\<forall>l\<in>set (split_nl ws). \<forall>c\<in>set l. isspace c"
    using assms split_nl_chars by blast
  with D have "\<forall>l\<in>set ds. strip l = []"
    by (auto intro: strip_spaces)
  then have t: "map strip ds = replicate (length ds) []"
    by (rule map_all_Nil)
  from all D have "\<forall>c\<in>set d. isspace c" by simp
  then have l: "strip (last (split_nl s) @ d) = strip (last (split_nl s))"
    by (rule strip_append_spaces)
  have C: "butlast (split_nl s) @ [last (split_nl s)] = split_nl s" by simp
  have "map strip (split_nl (s @ ws)) =
      map strip (butlast (split_nl s)) @ [strip (last (split_nl s) @ d)] @ map strip ds"
    by (simp add: split_nl_append D)
  also have "\<dots> = map strip (butlast (split_nl s) @ [last (split_nl s)]) @ replicate (length ds) []"
    by (simp only: t l map_append list.map append_assoc)
  finally have "map strip (split_nl (s @ ws)) = map strip (split_nl s) @ replicate (length ds) []"
    by (simp only: C)
  then show ?thesis ..
qed

lemma map_strip_split_strip:
  "\<exists>m n. map strip (split_nl r) = replicate m [] @ map strip (split_nl (strip r)) @ replicate n []"
proof -
  obtain ws1 ws2 where r: "r = ws1 @ strip r @ ws2"
    and 1: "\<forall>c\<in>set ws1. isspace c" and 2: "\<forall>c\<in>set ws2. isspace c"
    using strip_decompose by blast
  obtain m where m: "map strip (split_nl (ws1 @ strip r @ ws2)) =
      replicate m [] @ map strip (split_nl (strip r @ ws2))"
    using map_strip_leading [OF 1] by blast
  obtain n where n: "map strip (split_nl (strip r @ ws2)) =
      map strip (split_nl (strip r)) @ replicate n []"
    using map_strip_trailing [OF 2] by blast
  have "map strip (split_nl r) = map strip (split_nl (ws1 @ strip r @ ws2))"
    using r by simp
  also have "\<dots> = replicate m [] @ map strip (split_nl (strip r)) @ replicate n []"
    by (simp only: m n)
  finally show ?thesis by blast
qed

subsection \<open>The parsers against the specification's reading\<close>

lemma startswith_Nil [simp]: "startswith p [] \<longleftrightarrow> p = []"
  by (auto simp: startswith_def)

lemma ustr_Q_not_Nil [simp]: "ustr ''Q:'' \<noteq> []" "ustr ''A:'' \<noteq> []"
  by (simp_all add: ustr_def)

lemma spec_answer_blank_tail: "spec_answer a (ls @ replicate n []) = spec_answer a ls"
proof (induction ls arbitrary: a)
  case Nil
  show ?case by (induction n) simp_all
next
  case (Cons l ls)
  then show ?case by simp
qed

lemma spec_records_blank_tail: "spec_records (ls @ replicate n []) = spec_records ls"
proof (induction ls)
  case Nil
  show ?case by (induction n) simp_all
next
  case (Cons l ls)
  then show ?case by (simp add: spec_answer_blank_tail)
qed

lemma spec_records_blank_head: "spec_records (replicate m [] @ ls) = spec_records ls"
  by (induction m) simp_all

lemma spec_records_strip_reply:
  "spec_records (map strip (split_nl (strip r))) = spec_records (map strip (split_nl r))"
proof -
  obtain m n where "map strip (split_nl r) =
      replicate m [] @ map strip (split_nl (strip r)) @ replicate n []"
    using map_strip_split_strip by blast
  then show ?thesis
    by (simp only: spec_records_blank_head spec_records_blank_tail)
qed

lemma parse_flashcards_eq:
  "parse_flashcards env result w =
     (spec_flashcards env (uuid_count w) result,
      w\<lparr>uuid_count := uuid_count w +
           length (filter complete (spec_records (map strip (split_nl result))))\<rparr>)"
proof -
  let ?ls = "split_nl (strip result)"
  let ?rs = "filter complete (spec_records (map strip ?ls))"
  have "filter complete (([], spec_answer [] (map strip ?ls)) # spec_records (map strip ?ls)) = ?rs"
    by (simp add: complete_def)
  with flashcards_loop_spec [of env "[]" "[]" "[]" ?ls w]
  have "(case flashcards_loop env [] [] [] ?ls w of
      ((fcs', q', a'), w') \<Rightarrow>
        (if q' \<noteq> [] \<and> a' \<noteq> [] then append_flashcard env fcs' q' a' w' else (fcs', w')))
     = (number_cards env (uuid_count w) ?rs, w\<lparr>uuid_count := uuid_count w + length ?rs\<rparr>)"
    by simp
  then have "parse_flashcards env result w =
      (take 8 (number_cards env (uuid_count w) ?rs), w\<lparr>uuid_count := uuid_count w + length ?rs\<rparr>)"
    by (auto simp: parse_flashcards_def split: prod.splits)
  then show ?thesis
    by (simp add: spec_flashcards_def take_number_cards spec_records_strip_reply)
qed

section \<open>The claims\<close>

subsection \<open>Flashcards\<close>

lemma generate_flashcards_success:
  assumes "vectorStore w = Some vs"
    and "qa_run env (length (calls w)) vs 4 FlashcardsPrompt = Inr reply"
  shows "generate_flashcards env text w =
     (spec_flashcards env (uuid_count w) reply,
      (record_call (QaRun vs 4 FlashcardsPrompt) w)
        \<lparr>uuid_count := uuid_count w +
           length (filter complete (spec_records (map strip (split_nl reply))))\<rparr>)"
  using assms by (simp add: generate_flashcards_def Let_def parse_flashcards_eq)

lemma length_spec_flashcards: "length (spec_flashcards env c reply) \<le> 8"
  by (simp add: spec_flashcards_def)

text \<open>
  C2. On the success path \<open>generate_flashcards\<close> returns what the specification's
  line-by-line reading of the reply gives: one record for each line beginning with \<open>Q:\<close>,
  with the stripped remainder as question and the answer set by \<open>A:\<close> lines and continued
  by later non-empty lines joined with one space, only records with non-empty question and
  answer, in order of appearance, and at most 8 of them.
\<close>

theorem generate_flashcards_parses_reply:
  assumes "vectorStore w = Some vs"
    and "qa_run env (length (calls w)) vs 4 FlashcardsPrompt = Inr reply"
  shows "fst (generate_flashcards env text w) = spec_flashcards env (uuid_count w) reply \<and>
         length (fst (generate_flashcards env text w)) \<le> 8"
  using assms by (simp add: generate_flashcards_success length_spec_flashcards)

theorem generate_flashcards_parses_reply_witness:
  "vectorStore ready_world = Some (FAISS [ustr ''Cells'']) \<and>
   qa_run sample_env (length (calls ready_world)) (FAISS [ustr ''Cells'']) 4 FlashcardsPrompt =
     Inr (sample_reply FlashcardsPrompt) \<and>
   fst (generate_flashcards sample_env (ustr ''Cells'') ready_world) =
     [flashcard (ustr ''u'' @ [0]) (ustr ''Why?'') (ustr ''So''),
      flashcard (ustr ''u'' @ [1]) (ustr ''How?'') (ustr ''Thus'')]"
proof -
  have 1: "vectorStore ready_world = Some (FAISS [ustr ''Cells''])"
    by (simp add: ready_world_def fresh_world_def)
  have 2: "qa_run sample_env (length (calls ready_world)) (FAISS [ustr ''Cells'']) 4 FlashcardsPrompt =
     Inr (sample_reply FlashcardsPrompt)"
    by (simp add: sample_env_def)
  have 3: "spec_flashcards sample_env (uuid_count ready_world) (sample_reply FlashcardsPrompt) =
     [flashcard (ustr ''u'' @ [0]) (ustr ''Why?'') (ustr ''So''),
      flashcard (ustr ''u'' @ [1]) (ustr ''How?'') (ustr ''Thus'')]"
    by (simp add: spec_flashcards_def ready_world_def fresh_world_def sample_env_def ustr_def
        strip_def lstrip_def rstrip_def isspace_def startswith_def complete_def)
  from generate_flashcards_parses_reply [OF 1 2, of "ustr ''Cells''"] 1 2 3
  show ?thesis by simp
qed

lemma dict_get_flashcard [simp]:
  "dict_get (flashcard i q a) (ustr ''id'') = Some (PStr i)"
  "dict_get (flashcard i q a) (ustr ''question'') = Some (PStr q)"
  "dict_get (flashcard i q a) (ustr ''answer'') = Some (PStr a)"
  by (simp_all add: flashcard_def ustr_def)

lemma number_cards_ids:
  "map (\<lambda>fc. dict_get fc (ustr ''id'')) (number_cards env c rs) =
     map (\<lambda>i. Some (PStr (uuid_str env i))) [c..<c + length rs]"
proof (induction rs arbitrary: c)
  case Nil
  show ?case by simp
next
  case (Cons r rs)
  have "[c..<c + length (r # rs)] = c # [Suc c..<Suc c + length rs]"
    by (subst upt_rec) simp
  with Cons.IH [of "Suc c"] show ?case by simp
qed

lemma number_cards_complete:
  assumes "\<forall>r\<in>set rs. complete r"
  shows "\<forall>fc\<in>set (number_cards env c rs).
           \<exists>q a. dict_get fc (ustr ''question'') = Some (PStr q) \<and> q \<noteq> [] \<and>
                 dict_get fc (ustr ''answer'') = Some (PStr a) \<and> a \<noteq> []"
  using assms by (induction rs arbitrary: c) (auto simp: complete_def)

lemma spec_flashcards_complete:
  "\<forall>fc\<in>set (spec_flashcards env c reply).
     \<exists>q a. dict_get fc (ustr ''question'') = Some (PStr q) \<and> q \<noteq> [] \<and>
           dict_get fc (ustr ''answer'') = Some (PStr a) \<and> a \<noteq> []"
  unfolding spec_flashcards_def
  by (rule number_cards_complete) (auto dest: in_set_takeD)

lemma spec_flashcards_ids:
  "map (\<lambda>fc. dict_get fc (ustr ''id'')) (spec_flashcards env c reply) =
     map (\<lambda>i. Some (PStr (uuid_str env i))) [c..<c + length (spec_flashcards env c reply)]"
  unfolding spec_flashcards_def by (simp only: number_cards_ids length_number_cards)

lemma distinct_drawn_ids:
  assumes "inj (uuid_str env)"
  shows "distinct (map (\<lambda>i. Some (PStr (uuid_str env i))) [c..<d])"
proof -
  have "inj (\<lambda>i. Some (PStr (uuid_str env i)))"
    using assms by (auto simp: inj_def)
  then have "inj_on (\<lambda>i. Some (PStr (uuid_str env i))) (set [c..<d])"
    by (rule inj_on_subset) simp
  then show ?thesis by (simp add: distinct_map)
qed

text \<open>
  C10. On the success path every flashcard record that \<open>generate_flashcards\<close> returns
  has a non-empty question and a non-empty answer, and the records carry, in order, the
  consecutive draws of \<open>uuid.uuid4()\<close> made during the call; so, the draws of the
  generator being pairwise different, no two records of one response share an id.
\<close>

theorem generate_flashcards_records_fresh:
  assumes "vectorStore w = Some vs"
    and "qa_run env (length (calls w)) vs 4 FlashcardsPrompt = Inr reply"
  shows "(\<forall>fc\<in>set (fst (generate_flashcards env text w)).
            \<exists>q a. dict_get fc (ustr ''question'') = Some (PStr q) \<and> q \<noteq> [] \<and>
                  dict_get fc (ustr ''answer'') = Some (PStr a) \<and> a \<noteq> []) \<and>
         map (\<lambda>fc. dict_get fc (ustr ''id'')) (fst (generate_flashcards env text w)) =
           map (\<lambda>i. Some (PStr (uuid_str env i)))
             [uuid_count w..<uuid_count w + length (fst (generate_flashcards env text w))] \<and>
         (inj (uuid_str env) \<longrightarrow>
            distinct (map (\<lambda>fc. dict_get fc (ustr ''id'')) (fst (generate_flashcards env text w))))"
proof -
  have eq: "fst (generate_flashcards env text w) = spec_flashcards env (uuid_count w) reply"
    using assms by (simp add: generate_flashcards_success)
  have ids: "map (\<lambda>fc. dict_get fc (ustr ''id'')) (spec_flashcards env (uuid_count w) reply) =
      map (\<lambda>i. Some (PStr (uuid_str env i)))
        [uuid_count w..<uuid_count w + length (spec_flashcards env (uuid_count w) reply)]"
    by (rule spec_flashcards_ids)
  show ?thesis
    unfolding eq
    using spec_flashcards_complete [of env "uuid_count w" reply] ids distinct_drawn_ids [of env]
    by (simp only: simp_thms) blast
qed

theorem generate_flashcards_records_fresh_witness:
  "vectorStore ready_world = Some (FAISS [ustr ''Cells'']) \<and>
   qa_run sample_env (length (calls ready_world)) (FAISS [ustr ''Cells'']) 4 FlashcardsPrompt =
     Inr (sample_reply FlashcardsPrompt) \<and>
   inj (uuid_str sample_env) \<and>
   length (fst (generate_flashcards sample_env (ustr ''Cells'') ready_world)) = 2 \<and>
   distinct (map (\<lambda>fc. dict_get fc (ustr ''id''))
     (fst (generate_flashcards sample_env (ustr ''Cells'') ready_world)))"
proof -
  have 1: "vectorStore ready_world = Some (FAISS [ustr ''Cells''])"
    by (simp add: ready_world_def fresh_world_def)
  have 2: "qa_run sample_env (length (calls ready_world)) (FAISS [ustr ''Cells'']) 4 FlashcardsPrompt =
     Inr (sample_reply FlashcardsPrompt)"
    by (simp add: sample_env_def)
  have 3: "inj (uuid_str sample_env)"
    by (simp add: sample_env_def inj_def)
  have 4: "length (spec_flashcards sample_env (uuid_count ready_world) (sample_reply FlashcardsPrompt)) = 2"
    by (simp add: spec_flashcards_def ustr_def
        strip_def lstrip_def rstrip_def isspace_def startswith_def complete_def)
  have 5: "length (fst (generate_flashcards sample_env (ustr ''Cells'') ready_world)) = 2"
    using 1 2 4 by (simp add: generate_flashcards_success)
  from generate_flashcards_records_fresh [OF 1 2, of "ustr ''Cells''"] 1 2 3 5
  show ?thesis by blast
qed

subsection \<open>Notes\<close>

lemma notes_loop_eq:
  "notes_loop acc ls =
     acc @ filter (\<lambda>n. n \<noteq> [] \<and> 10 < length n)
               (map (lstrip_chars note_prefix_chars) (map strip ls))"
  by (induction ls arbitrary: acc) (simp_all add: Let_def)

lemma lstrip_chars_Nil [simp]: "lstrip_chars chars [] = []"
  by (simp add: lstrip_chars_def)

lemma parse_notes_eq: "parse_notes reply = spec_notes note_prefix_chars reply"
proof -
  let ?keep = "\<lambda>n::ustring. n \<noteq> [] \<and> 10 < length n"
  let ?clean = "lstrip_chars note_prefix_chars"
  obtain m n where "map strip (split_nl reply) =
      replicate m [] @ map strip (split_nl (strip reply)) @ replicate n []"
    using map_strip_split_strip by blast
  then have "filter ?keep (map ?clean (map strip (split_nl reply))) =
      filter ?keep (map ?clean (map strip (split_nl (strip reply))))"
    by simp
  then show ?thesis
    by (simp add: parse_notes_def spec_notes_def notes_loop_eq o_def)
qed

lemma generate_notes_success:
  assumes "vectorStore w = Some vs"
    and "qa_run env (length (calls w)) vs 4 NotesPrompt = Inr reply"
  shows "generate_notes env text w =
     (spec_notes note_prefix_chars reply, record_call (QaRun vs 4 NotesPrompt) w)"
  using assms by (simp add: generate_notes_def Let_def parse_notes_eq)

text \<open>
  C3. The claim has the notes parser remove leading bullet characters. The set that the
  source passes to \<open>lstrip\<close> holds U+00E2, U+20AC and U+00A2 where the bullet U+2022 was
  meant, so a bulleted line keeps its bullet: on the reply \<open>\<bullet> Cells divide by mitosis\<close>
  the code returns the line with the bullet and the space after it, where the
  specification's reading returns \<open>Cells divide by mitosis\<close>.
\<close>

theorem generate_notes_keeps_bullet:
  "fst (generate_notes sample_env (ustr ''Cells'') ready_world) =
     [8226 # ustr '' Cells divide by mitosis''] \<and>
   spec_notes spec_note_chars (sample_reply NotesPrompt) = [ustr ''Cells divide by mitosis'']"
proof -
  have 1: "vectorStore ready_world = Some (FAISS [ustr ''Cells''])"
    by (simp add: ready_world_def fresh_world_def)
  have 2: "qa_run sample_env (length (calls ready_world)) (FAISS [ustr ''Cells'']) 4 NotesPrompt =
     Inr (sample_reply NotesPrompt)"
    by (simp add: sample_env_def)
  have "spec_notes note_prefix_chars (sample_reply NotesPrompt) =
      [8226 # ustr '' Cells divide by mitosis'']"
    by (simp add: spec_notes_def ustr_def strip_def lstrip_def rstrip_def isspace_def
        lstrip_chars_def note_prefix_chars_def)
  moreover have "spec_notes spec_note_chars (sample_reply NotesPrompt) =
      [ustr ''Cells divide by mitosis'']"
    by (simp add: spec_notes_def ustr_def strip_def lstrip_def rstrip_def isspace_def
        lstrip_chars_def spec_note_chars_def)
  ultimately show ?thesis
    using generate_notes_success [OF 1 2] by simp
qed

subsection \<open>What the service operations change\<close>

lemma flashcards_fallback_fields [simp]:
  "vectorStore (snd (flashcards_fallback env e w)) = vectorStore w"
  "calls (snd (flashcards_fallback env e w)) = calls w"
  "upload_dir (snd (flashcards_fallback env e w)) = upload_dir w"
  "uuid_count (snd (flashcards_fallback env e w)) = Suc (uuid_count w)"
  "logged (snd (flashcards_fallback env e w)) =
     logged w @ [(ERROR, ustr ''Error generating flashcards: '' @ str_exn e)]"
  "fst (flashcards_fallback env e w) =
     [flashcard (uuid_str env (uuid_count w)) (ustr ''Error generating flashcards'')
        (ustr ''Please try again with a different document.'')]"
  by (simp_all add: flashcards_fallback_def uuid4_def split: prod.splits)

lemma parse_flashcards_fields [simp]:
  "vectorStore (snd (parse_flashcards env r w)) = vectorStore w"
  "calls (snd (parse_flashcards env r w)) = calls w"
  "upload_dir (snd (parse_flashcards env r w)) = upload_dir w"
  "logged (snd (parse_flashcards env r w)) = logged w"
  by (simp_all add: parse_flashcards_eq)

lemma generate_flashcards_frame [simp]:
  "vectorStore (snd (generate_flashcards env text w)) = vectorStore w"
  "upload_dir (snd (generate_flashcards env text w)) = upload_dir w"
  by (simp_all add: generate_flashcards_def Let_def split: option.splits sum.splits)

lemma generate_flashcards_calls:
  "calls (snd (generate_flashcards env text w)) =
     calls w @ (case vectorStore w of None \<Rightarrow> [] | Some vs \<Rightarrow> [QaRun vs 4 FlashcardsPrompt])"
  by (simp add: generate_flashcards_def Let_def split: option.splits sum.splits)

lemma generate_notes_frame [simp]:
  "vectorStore (snd (generate_notes env text w)) = vectorStore w"
  "upload_dir (snd (generate_notes env text w)) = upload_dir w"
  "uuid_count (snd (generate_notes env text w)) = uuid_count w"
  by (simp_all add: generate_notes_def Let_def split: option.splits sum.splits)

lemma generate_notes_calls:
  "calls (snd (generate_notes env text w)) =
     calls w @ (case vectorStore w of None \<Rightarrow> [] | Some vs \<Rightarrow> [QaRun vs 4 NotesPrompt])"
  by (simp add: generate_notes_def Let_def split: option.splits sum.splits)

lemma create_vector_store_frame [simp]:
  "upload_dir (snd (create_vector_store env text w)) = upload_dir w"
  "uuid_count (snd (create_vector_store env text w)) = uuid_count w"
  by (simp_all add: create_vector_store_def Let_def split: option.splits sum.splits)

lemma create_vector_store_vectorStore:
  "vectorStore (snd (create_vector_store env text w)) =
     (case fst (create_vector_store env text w) of Inl e \<Rightarrow> vectorStore w | Inr vs \<Rightarrow> Some vs)"
  by (simp add: create_vector_store_def Let_def split: option.splits sum.splits)

lemma create_vector_store_result:
  "fst (create_vector_store env text w) = Inr vs \<Longrightarrow>
     split_text env 1000 200 text = Inr (index_texts vs)"
  by (auto simp: create_vector_store_def Let_def split: option.splits sum.splits)

lemma generate_summary_frame [simp]:
  "upload_dir (snd (generate_summary env text w)) = upload_dir w"
  "uuid_count (snd (generate_summary env text w)) = uuid_count w"
  by (simp_all add: generate_summary_def Let_def split: prod.splits sum.splits)
     (metis create_vector_store_frame snd_conv)+

lemma generate_summary_vectorStore:
  "vectorStore (snd (generate_summary env text w)) =
     vectorStore (snd (create_vector_store env text w))"
  by (simp add: generate_summary_def Let_def split: prod.splits sum.splits)

lemma generate_summary_calls:
  "calls (snd (generate_summary env text w)) =
     calls (snd (create_vector_store env text w)) @
       (case fst (create_vector_store env text w) of
          Inl e \<Rightarrow> [] | Inr vs \<Rightarrow> [QaRun vs 3 SummaryPrompt])"
  by (simp add: generate_summary_def Let_def split: prod.splits sum.splits)

lemma query_response_calls:
  "calls (snd (query_response env q w)) =
     calls w @ (case vectorStore w of None \<Rightarrow> [] | Some vs \<Rightarrow> [QaCall vs 4 q])"
  by (simp add: query_response_def query_fallback_def uuid4_def Let_def
      split: option.splits sum.splits prod.splits)

subsection \<open>The vector index\<close>

lemma study_materials_try_Inr:
  assumes "study_materials_try env text w = (Inr d, w')"
  shows "\<exists>vs. fst (create_vector_store env text
                     (logger INFO (ustr ''Starting study materials generation...'') w)) = Inr vs \<and>
              vectorStore w' = vectorStore (snd (create_vector_store env text
                 (snd (create_vector_store env text
                     (logger INFO (ustr ''Starting study materials generation...'') w)))))"
  using assms
  by (auto simp: study_materials_try_def generate_summary_vectorStore [symmetric]
      split: prod.splits sum.splits)
     (metis generate_flashcards_frame(1) generate_notes_frame(1) snd_conv)

text \<open>
  C5. A successful \<open>create_vector_store(text)\<close> returns the index built from the chunks
  of \<open>text\<close> and leaves it in the service's \<open>vectorStore\<close>; and when
  \<open>generate_study_materials(text)\<close> completes without failure, \<open>vectorStore\<close> holds the
  index of the chunks of that text, whatever it held before.
\<close>

theorem vectorStore_is_latest_index:
  "(\<forall>vs w'. create_vector_store env text w = (Inr vs, w') \<longrightarrow>
      split_text env 1000 200 text = Inr (index_texts vs) \<and> vectorStore w' = Some vs) \<and>
   (\<forall>d w'. study_materials_try env text w = (Inr d, w') \<longrightarrow>
      generate_study_materials env text w = (d, w') \<and>
      (\<exists>chunks. split_text env 1000 200 text = Inr chunks \<and>
                vectorStore w' = Some (FAISS chunks)))"
proof (intro conjI allI impI)
  fix vs w'
  assume "create_vector_store env text w = (Inr vs, w')"
  then show "split_text env 1000 200 text = Inr (index_texts vs)" "vectorStore w' = Some vs"
    by (rule create_vector_store_Inr)+
next
  fix d w'
  assume a: "study_materials_try env text w = (Inr d, w')"
  then show "generate_study_materials env text w = (d, w')"
    by (simp add: generate_study_materials_def)
  let ?w0 = "logger INFO (ustr ''Starting study materials generation...'') w"
  let ?w1 = "snd (create_vector_store env text ?w0)"
  from study_materials_try_Inr [OF a] obtain vs
    where vs: "fst (create_vector_store env text ?w0) = Inr vs"
      and w': "vectorStore w' = vectorStore (snd (create_vector_store env text ?w1))"
    by blast
  from vs have sp: "split_text env 1000 200 text = Inr (index_texts vs)"
    by (rule create_vector_store_result)
  from vs have v1: "vectorStore ?w1 = Some vs"
    by (simp add: create_vector_store_vectorStore)
  have "vectorStore (snd (create_vector_store env text ?w1)) = Some (FAISS (index_texts vs))"
  proof (cases "fst (create_vector_store env text ?w1)")
    case (Inl e)
    have "vectorStore (snd (create_vector_store env text ?w1)) = vectorStore ?w1"
      by (subst create_vector_store_vectorStore) (simp only: Inl sum.case)
    with v1 show ?thesis by simp
  next
    case (Inr vs')
    from create_vector_store_result [OF Inr] sp have "index_texts vs' = index_texts vs" by simp
    then have "vs' = vs" by (rule vstore.expand)
    have "vectorStore (snd (create_vector_store env text ?w1)) = Some vs'"
      by (subst create_vector_store_vectorStore) (simp only: Inr sum.case)
    with \<open>vs' = vs\<close> show ?thesis by simp
  qed
  with w' sp show "\<exists>chunks. split_text env 1000 200 text = Inr chunks \<and>
                vectorStore w' = Some (FAISS chunks)"
    by auto
qed


lemma study_materials_try_succeeds:
  assumes "fst (create_vector_store env text
             (logger INFO (ustr ''Starting study materials generation...'') w)) = Inr vs"
  shows "\<exists>d. fst (study_materials_try env text w) = Inr d"
  using assms by (auto simp: study_materials_try_def split: prod.splits sum.splits)

theorem vectorStore_is_latest_index_witness:
  "vectorStore ready_world = Some (FAISS [ustr ''Cells'']) \<and>
   vectorStore (snd (create_vector_store sample_env (ustr ''Atoms'') ready_world)) =
     Some (FAISS [ustr ''Atoms'']) \<and>
   vectorStore (snd (generate_study_materials sample_env (ustr ''Atoms'') ready_world)) =
     Some (FAISS [ustr ''Atoms''])"
proof -
  let ?T = "ustr ''Atoms''"
  note inst = vectorStore_is_latest_index [of sample_env ?T ready_world]
  have sp: "split_text sample_env 1000 200 ?T = Inr [?T]"
    by (simp add: sample_env_def)
  have 0: "vectorStore ready_world = Some (FAISS [ustr ''Cells''])"
    by (simp add: ready_world_def fresh_world_def)
  have c: "\<And>w. fst (create_vector_store sample_env ?T w) = Inr (FAISS [?T])"
    by (simp add: create_vector_store_def sample_env_def Let_def)
  have "create_vector_store sample_env ?T ready_world =
      (Inr (FAISS [?T]), snd (create_vector_store sample_env ?T ready_world))"
    using c [of ready_world] by (metis prod.collapse)
  with inst have 1: "vectorStore (snd (create_vector_store sample_env ?T ready_world)) =
      Some (FAISS [?T])"
    by blast
  obtain d where "fst (study_materials_try sample_env ?T ready_world) = Inr d"
    using study_materials_try_succeeds [OF c] by blast
  then have t: "study_materials_try sample_env ?T ready_world =
      (Inr d, snd (study_materials_try sample_env ?T ready_world))"
    by (metis prod.collapse)
  with inst have g: "generate_study_materials sample_env ?T ready_world =
      (d, snd (study_materials_try sample_env ?T ready_world))"
    and "\<exists>chunks. split_text sample_env 1000 200 ?T = Inr chunks \<and>
      vectorStore (snd (study_materials_try sample_env ?T ready_world)) = Some (FAISS chunks)"
    by blast+
  with sp have "vectorStore (snd (study_materials_try sample_env ?T ready_world)) =
      Some (FAISS [?T])"
    by auto
  with g have 2: "vectorStore (snd (generate_study_materials sample_env ?T ready_world)) =
      Some (FAISS [?T])"
    by simp
  from 0 1 2 show ?thesis by blast
qed

subsection \<open>Fixed parameters\<close>

text \<open>
  C6. The chunking and retrieval parameters do not depend on the input: the splitter is
  configured with chunk size 1000 and overlap 200 and every split is made with them;
  \<open>generate_summary\<close> retrieves with k = 3; \<open>generate_notes\<close>, \<open>generate_flashcards\<close>
  and \<open>query_response\<close> retrieve with k = 4. These are all the library calls each
  operation makes.
\<close>

theorem fixed_chunking_and_retrieval_parameters:
  "chunk_size text_splitter = 1000 \<and> chunk_overlap text_splitter = 200 \<and>
   calls (snd (create_vector_store env text w)) =
     calls w @ SplitText 1000 200 text #
       (case split_text env 1000 200 text of Inl e \<Rightarrow> [] | Inr texts \<Rightarrow> [FromTexts texts]) \<and>
   calls (snd (generate_summary env text w)) =
     calls (snd (create_vector_store env text w)) @
       (case fst (create_vector_store env text w) of
          Inl e \<Rightarrow> [] | Inr vs \<Rightarrow> [QaRun vs 3 SummaryPrompt]) \<and>
   calls (snd (generate_notes env text w)) =
     calls w @ (case vectorStore w of None \<Rightarrow> [] | Some vs \<Rightarrow> [QaRun vs 4 NotesPrompt]) \<and>
   calls (snd (generate_flashcards env text w)) =
     calls w @ (case vectorStore w of None \<Rightarrow> [] | Some vs \<Rightarrow> [QaRun vs 4 FlashcardsPrompt]) \<and>
   calls (snd (query_response env q w)) =
     calls w @ (case vectorStore w of None \<Rightarrow> [] | Some vs \<Rightarrow> [QaCall vs 4 q])"
  by (intro conjI text_splitter_fields create_vector_store_calls generate_summary_calls
      generate_notes_calls generate_flashcards_calls query_response_calls)

subsection \<open>Queries before any upload\<close>

lemma query_fallback_eq:
  "query_fallback env e w =
     (PList [PDict [(ustr ''id'', PStr (uuid_str env (uuid_count w))),
                    (ustr ''message'', PStr (ustr ''Something went wrong''))]],
      (logger ERROR (ustr ''Error generating flashcards: '' @ str_exn e) w)
        \<lparr>uuid_count := Suc (uuid_count w)\<rparr>)"
  by (simp add: query_fallback_def uuid4_def)

text \<open>
  C9. A query with a JSON object that has the key \<open>message\<close>, sent while no document has
  been uploaded (the attribute \<open>vectorStore\<close> is not set), gets HTTP 200: \<open>query_response\<close>
  catches the failure, logs it, and returns a list holding one record with a newly drawn
  id and the message \<open>Something went wrong\<close>, which the endpoint wraps under \<open>response\<close>.
\<close>

theorem query_before_upload_falls_back:
  assumes "vectorStore w = None"
    and "json_body req = Inr (PDict kvs)"
    and "map_of kvs (ustr ''message'') = Some m"
  shows "fst (query_pdf env req w) =
           (200, PDict [(ustr ''response'',
              PList [PDict [(ustr ''id'', PStr (uuid_str env (uuid_count w))),
                            (ustr ''message'', PStr (ustr ''Something went wrong''))]])]) \<and>
         uuid_count (snd (query_pdf env req w)) = Suc (uuid_count w) \<and>
         logged (snd (query_pdf env req w)) =
           logged w @ [(ERROR, ustr ''Error generating flashcards: '' @ str_exn no_vectorStore)]"
proof -
  from assms(3) have in_keys: "ustr ''message'' \<in> fst ` set kvs"
    by (auto dest: map_of_SomeD intro: rev_image_eqI)
  then have ne: "kvs \<noteq> []" by auto
  have "query_response env m w = query_fallback env no_vectorStore w"
    using assms(1) by (simp add: query_response_def)
  then have "query_pdf env req w =
      ((200, PDict [(ustr ''response'', fst (query_fallback env no_vectorStore w))]),
       snd (query_fallback env no_vectorStore w))"
    using assms(2,3) in_keys ne by (simp add: query_pdf_def split: prod.splits)
  then show ?thesis
    by (simp add: query_fallback_eq)
qed

theorem query_before_upload_falls_back_witness:
  "vectorStore fresh_world = None \<and>
   json_body sample_request = Inr (PDict [(ustr ''message'', PStr (ustr ''hi''))]) \<and>
   map_of [(ustr ''message'', PStr (ustr ''hi''))] (ustr ''message'') = Some (PStr (ustr ''hi'')) \<and>
   fst (query_pdf sample_env sample_request fresh_world) =
     (200, PDict [(ustr ''response'',
        PList [PDict [(ustr ''id'', PStr (ustr ''u'' @ [0])),
                      (ustr ''message'', PStr (ustr ''Something went wrong''))]])])"
proof -
  have 1: "vectorStore fresh_world = None"
    by (simp add: fresh_world_def)
  have 2: "json_body sample_request = Inr (PDict [(ustr ''message'', PStr (ustr ''hi''))])"
    by (simp add: sample_request_def)
  have 3: "map_of [(ustr ''message'', PStr (ustr ''hi''))] (ustr ''message'') = Some (PStr (ustr ''hi''))"
    by simp
  have 4: "uuid_str sample_env (uuid_count fresh_world) = ustr ''u'' @ [0]"
    by (simp add: sample_env_def fresh_world_def)
  from query_before_upload_falls_back [OF 1 2 3, of sample_env] 1 2 3 4
  show ?thesis by simp
qed

subsection \<open>What the upload handler changes\<close>

lemma study_materials_try_upload_dir [simp]:
  "upload_dir (snd (study_materials_try env text w)) = upload_dir w"
  by (simp add: study_materials_try_def split_beta split: sum.splits)

lemma generate_study_materials_upload_dir [simp]:
  "upload_dir (snd (generate_study_materials env text w)) = upload_dir w"
  by (simp add: generate_study_materials_def split_beta split: sum.splits)

lemma process_saved_upload_dir [simp]:
  "upload_dir (snd (process_saved env p w)) = upload_dir w"
  by (simp add: process_saved_def Let_def split_beta split: sum.splits)

lemma cleanup_calls [simp]: "calls (cleanup env p w) = calls w @ [OsRemove p]"
  by (simp add: cleanup_def Let_def split: option.splits)

lemma cleanup_upload_dir:
  "upload_dir (cleanup env p w) =
     (case remove_error env (length (calls w)) p of
        None \<Rightarrow> (upload_dir w)(p := None) | Some e \<Rightarrow> upload_dir w)"
  by (simp add: cleanup_def Let_def split: option.splits)

lemma cleanup_logged:
  "logged (cleanup env p w) = logged w @
     [case remove_error env (length (calls w)) p of
        None \<Rightarrow> (INFO, ustr ''Cleaned up file: '' @ p)
      | Some e \<Rightarrow> (WARNING, ustr ''Failed to clean up file '' @ p @ ustr '': '' @ str_exn e)]"
  by (simp add: cleanup_def Let_def split: option.splits)

lemma request_files_accepted:
  "accepted req f \<Longrightarrow> request_files req = Inr (form_files req)"
  by (simp add: accepted_def)

lemma request_files_Inr:
  "request_files req = Inr (form_files req) \<longleftrightarrow>
     content_length req \<le> MAX_CONTENT_LENGTH \<and> form_error req = None"
  by (simp add: request_files_def split: option.splits)

lemma post_process_pdf_accepted:
  assumes "accepted req f"
    and "save_error env (length (calls w)) (unique_path env f w) = None"
  shows "post_process_pdf env req w =
     (let p = unique_path env f w;
          r = process_saved env p
                (logger INFO (ustr ''File uploaded: '' @ p)
                   ((record_call (FileSave p) (snd (uuid4 env w)))
                      \<lparr>upload_dir := (upload_dir w)(p \<mapsto> content f)\<rparr>))
      in (fst r, cleanup env p (snd r)))"
  using assms
  by (simp add: accepted_def post_process_pdf_def process_pdf_def
      unique_path_def serve_def Let_def split_beta uuid4_def)

subsection \<open>The saved upload\<close>

lemma process_saved_status:
  "fst (fst (process_saved env p w)) =
     (case extract_text env (length (calls w)) p of
        Inl e \<Rightarrow> 500
      | Inr t \<Rightarrow> if strip t = [] then 400 else 200)"
  by (simp add: process_saved_def Let_def split_beta split: sum.splits)

lemma accepted_sample: "accepted sample_request sample_upload"
  by (simp add: accepted_def request_files_def sample_request_def sample_upload_def
      MAX_CONTENT_LENGTH_def allowed_file_def after_last_dot_def lower_def lower_char_def ALLOWED_EXTENSIONS_def ustr_def)

lemma post_process_pdf_upload_dir:
  assumes "accepted req f"
    and "save_error env (length (calls w)) (unique_path env f w) = None"
  shows "upload_dir (snd (post_process_pdf env req w)) =
     (case remove_error env (length (calls (snd (post_process_pdf env req w))) - 1)
             (unique_path env f w) of
        None \<Rightarrow> (upload_dir w)(unique_path env f w := None)
      | Some e \<Rightarrow> (upload_dir w)(unique_path env f w \<mapsto> content f))"
  by (simp add: post_process_pdf_accepted [OF assms] Let_def cleanup_upload_dir
      split: option.splits)

lemma post_process_pdf_status:
  assumes "accepted req f"
    and "save_error env (length (calls w)) (unique_path env f w) = None"
  shows "fst (fst (post_process_pdf env req w)) =
     (case extract_text env (Suc (length (calls w))) (unique_path env f w) of
        Inl e \<Rightarrow> 500
      | Inr t \<Rightarrow> if strip t = [] then 400 else 200)"
  by (simp add: post_process_pdf_accepted [OF assms] Let_def process_saved_status)

text \<open>
  C7, as stated, fails: when \<open>os.remove\<close> raises, the handler logs a warning and returns
  (here with HTTP 200) while the saved file is still in the upload directory.
\<close>

theorem saved_file_left_behind:
  "accepted sample_request sample_upload \<and>
   upload_dir fresh_world (unique_path busy_env sample_upload fresh_world) = None \<and>
   fst (fst (post_process_pdf busy_env sample_request fresh_world)) = 200 \<and>
   upload_dir (snd (post_process_pdf busy_env sample_request fresh_world))
     (unique_path busy_env sample_upload fresh_world) = Some [37]"
proof -
  have s: "save_error busy_env (length (calls fresh_world))
      (unique_path busy_env sample_upload fresh_world) = None"
    by (simp add: busy_env_def sample_env_def)
  have 1: "upload_dir fresh_world (unique_path busy_env sample_upload fresh_world) = None"
    by (simp add: fresh_world_def)
  have 2: "fst (fst (post_process_pdf busy_env sample_request fresh_world)) = 200"
    by (simp add: post_process_pdf_status [OF accepted_sample s])
       (simp add: busy_env_def sample_env_def ustr_def strip_def lstrip_def rstrip_def isspace_def)
  have 3: "upload_dir (snd (post_process_pdf busy_env sample_request fresh_world))
     (unique_path busy_env sample_upload fresh_world) = Some [37]"
    by (simp add: post_process_pdf_upload_dir [OF accepted_sample s])
       (simp add: busy_env_def sample_upload_def)
  from accepted_sample 1 2 3 show ?thesis by blast
qed

text \<open>
  C7, amended. For every request that passes the checks and whose file is saved, the last
  thing the handler does, on the success path and on the error path alike, is to call
  \<open>os.remove\<close> on the saved path. When that call succeeds, the upload directory is what it
  was before the request with that path absent; nothing else in it has changed. When the
  call raises, the failure is logged as a warning and the saved file stays.
\<close>

theorem process_pdf_removes_saved_file:
  assumes "accepted req f"
    and "save_error env (length (calls w)) (unique_path env f w) = None"
  shows "last (calls (snd (post_process_pdf env req w))) = OsRemove (unique_path env f w) \<and>
         upload_dir (snd (post_process_pdf env req w)) =
           (case remove_error env (length (calls (snd (post_process_pdf env req w))) - 1)
                   (unique_path env f w) of
              None \<Rightarrow> (upload_dir w)(unique_path env f w := None)
            | Some e \<Rightarrow> (upload_dir w)(unique_path env f w \<mapsto> content f)) \<and>
         (\<forall>e. remove_error env (length (calls (snd (post_process_pdf env req w))) - 1)
                  (unique_path env f w) = Some e \<longrightarrow>
              last (logged (snd (post_process_pdf env req w))) =
                (WARNING, ustr ''Failed to clean up file '' @ unique_path env f w @
                          ustr '': '' @ str_exn e))"
proof (intro conjI allI impI)
  show "last (calls (snd (post_process_pdf env req w))) = OsRemove (unique_path env f w)"
    by (simp add: post_process_pdf_accepted [OF assms] Let_def)
  show "upload_dir (snd (post_process_pdf env req w)) =
           (case remove_error env (length (calls (snd (post_process_pdf env req w))) - 1)
                   (unique_path env f w) of
              None \<Rightarrow> (upload_dir w)(unique_path env f w := None)
            | Some e \<Rightarrow> (upload_dir w)(unique_path env f w \<mapsto> content f))"
    using assms by (rule post_process_pdf_upload_dir)
next
  fix e
  assume "remove_error env (length (calls (snd (post_process_pdf env req w))) - 1)
                  (unique_path env f w) = Some e"
  then show "last (logged (snd (post_process_pdf env req w))) =
                (WARNING, ustr ''Failed to clean up file '' @ unique_path env f w @
                          ustr '': '' @ str_exn e)"
    by (simp add: post_process_pdf_accepted [OF assms] Let_def cleanup_logged)
qed

theorem process_pdf_removes_saved_file_witness:
  "accepted sample_request sample_upload \<and>
   save_error sample_env (length (calls fresh_world))
     (unique_path sample_env sample_upload fresh_world) = None \<and>
   upload_dir (snd (post_process_pdf sample_env sample_request fresh_world)) = Map.empty \<and>
   remove_error busy_env
     (length (calls (snd (post_process_pdf busy_env sample_request fresh_world))) - 1)
     (unique_path busy_env sample_upload fresh_world) = Some (Error (ustr ''busy'')) \<and>
   last (logged (snd (post_process_pdf busy_env sample_request fresh_world))) =
     (WARNING, ustr ''Failed to clean up file '' @
        unique_path busy_env sample_upload fresh_world @ ustr '': busy'')"
proof -
  have s: "save_error sample_env (length (calls fresh_world))
      (unique_path sample_env sample_upload fresh_world) = None"
    by (simp add: sample_env_def)
  have r: "\<And>n p. remove_error sample_env n p = None"
    by (simp add: sample_env_def)
  have e: "upload_dir fresh_world = Map.empty"
    by (simp add: fresh_world_def)
  have sb: "save_error busy_env (length (calls fresh_world))
      (unique_path busy_env sample_upload fresh_world) = None"
    by (simp add: busy_env_def sample_env_def)
  have rb: "\<And>n p. remove_error busy_env n p = Some (Error (ustr ''busy''))"
    by (simp add: busy_env_def)
  from process_pdf_removes_saved_file [OF accepted_sample s] r e
  have 1: "upload_dir (snd (post_process_pdf sample_env sample_request fresh_world)) = Map.empty"
    by simp
  from process_pdf_removes_saved_file [OF accepted_sample sb] rb
  have 2: "last (logged (snd (post_process_pdf busy_env sample_request fresh_world))) =
     (WARNING, ustr ''Failed to clean up file '' @
        unique_path busy_env sample_upload fresh_world @ ustr '': busy'')"
    by (simp add: ustr_def)
  from accepted_sample s 1 rb 2 show ?thesis by blast
qed

subsection \<open>The success payload\<close>

lemma is_flashcard_record_flashcard [simp]: "is_flashcard_record (flashcard i q a)"
  by (simp add: is_flashcard_record_def flashcard_def)

lemma number_cards_records: "list_all is_flashcard_record (number_cards env c rs)"
  by (induction rs arbitrary: c) simp_all

lemma generate_flashcards_records:
  "list_all is_flashcard_record (fst (generate_flashcards env text w))"
  by (simp add: generate_flashcards_def Let_def parse_flashcards_eq spec_flashcards_def
      number_cards_records split: option.splits sum.splits)

lemma is_study_materials_dict:
  "is_study_materials (study_materials_dict s ns fcs) \<longleftrightarrow> list_all is_flashcard_record fcs"
  by (simp add: is_study_materials_def study_materials_dict_def list_all_iff)

lemma generate_study_materials_shape:
  "is_study_materials (fst (generate_study_materials env text w))"
  by (simp add: generate_study_materials_def study_materials_try_def split_beta
      is_study_materials_dict generate_flashcards_records split: sum.splits)

lemma process_saved_200:
  assumes "fst (fst (process_saved env p w)) = 200"
  shows "is_study_materials (snd (fst (process_saved env p w)))"
  using assms
  by (simp add: process_saved_def Let_def split_beta generate_study_materials_shape
      split: sum.splits if_splits)

lemma outer_except_status: "fst (fst (serve (outer_except e w))) \<noteq> 200"
  by (cases e) (simp_all add: outer_except_def serve_def too_large_def)

lemma post_process_pdf_200:
  assumes "fst (fst (post_process_pdf env req w)) = 200"
  shows "\<exists>p w1. fst (post_process_pdf env req w) = fst (process_saved env p w1)"
proof (cases "request_files req")
  case (Inl e)
  with assms outer_except_status [of e w] show ?thesis
    by (simp add: post_process_pdf_def process_pdf_def)
next
  case (Inr files)
  show ?thesis
  proof (cases "map_of files (ustr ''pdf'')")
    case None
    with assms Inr show ?thesis
      by (simp add: post_process_pdf_def process_pdf_def serve_def)
  next
    case (Some f)
    show ?thesis
    proof (cases "filename f = [] \<or> \<not> allowed_file (filename f)")
      case True
      with assms Inr Some show ?thesis
        by (auto simp: post_process_pdf_def process_pdf_def serve_def)
    next
      case False
      let ?p = "upload_path (uuid_str env (uuid_count w)) (secure_filename env (filename f))"
      show ?thesis
      proof (cases "save_error env (length (calls w)) ?p")
        case None
        with False Inr Some show ?thesis
          by (auto simp: post_process_pdf_def process_pdf_def serve_def Let_def split_beta uuid4_def)
      next
        case (Some e)
        with assms False Inr \<open>map_of files (ustr ''pdf'') = Some f\<close>
          outer_except_status [of e "record_call (FileSave ?p) (snd (uuid4 env w))"]
        show ?thesis
          by (simp add: post_process_pdf_def process_pdf_def Let_def split_beta uuid4_def)
      qed
    qed
  qed
qed

text \<open>
  C8. Whenever \<open>POST /api/process-pdf\<close> answers HTTP 200, the body is an object with
  exactly the keys \<open>summary\<close> (a text), \<open>notes\<close> (a sequence of texts) and \<open>flashcards\<close>
  (a sequence of records, each with exactly the keys \<open>id\<close>, \<open>question\<close>, \<open>answer\<close>).
\<close>

theorem process_pdf_success_body:
  assumes "fst (fst (post_process_pdf env req w)) = 200"
  shows "is_study_materials (snd (fst (post_process_pdf env req w)))"
proof -
  from post_process_pdf_200 [OF assms] obtain p w1
    where eq: "fst (post_process_pdf env req w) = fst (process_saved env p w1)"
    by blast
  with assms have "fst (fst (process_saved env p w1)) = 200" by simp
  then have "is_study_materials (snd (fst (process_saved env p w1)))"
    by (rule process_saved_200)
  with eq show ?thesis by simp
qed

theorem process_pdf_success_body_witness:
  "fst (fst (post_process_pdf sample_env sample_request fresh_world)) = 200 \<and>
   is_study_materials (snd (fst (post_process_pdf sample_env sample_request fresh_world)))"
proof -
  have s: "save_error sample_env (length (calls fresh_world))
      (unique_path sample_env sample_upload fresh_world) = None"
    by (simp add: sample_env_def)
  have 1: "fst (fst (post_process_pdf sample_env sample_request fresh_world)) = 200"
    by (simp add: post_process_pdf_status [OF accepted_sample s])
       (simp add: sample_env_def ustr_def strip_def lstrip_def rstrip_def isspace_def)
  from process_pdf_success_body [OF 1] 1 show ?thesis by blast
qed

subsection \<open>Status codes of the upload route\<close>

lemma lower_char_dot [simp]: "lower_char c = 46 \<longleftrightarrow> c = 46"
  by (auto simp: lower_char_def)

lemma after_last_dot_append:
  assumes "46 \<notin> set ext"
  shows "after_last_dot (pre @ 46 # ext) = ext"
proof -
  have "takeWhile (\<lambda>c. c \<noteq> 46) (rev ext @ 46 # rev pre) = rev ext"
    using assms by (auto simp: takeWhile_tail)
  then show ?thesis by (simp add: after_last_dot_def)
qed

lemma split_last_dot:
  assumes "46 \<in> set fn"
  shows "\<exists>pre. fn = pre @ 46 # after_last_dot fn"
proof -
  let ?P = "\<lambda>c::nat. c \<noteq> 46"
  from assms have "dropWhile ?P (rev fn) \<noteq> []"
    by (auto simp: dropWhile_eq_Nil_conv)
  then obtain rest where d: "dropWhile ?P (rev fn) = 46 # rest"
    using hd_dropWhile [of ?P "rev fn"] by (cases "dropWhile ?P (rev fn)") auto
  have "rev (takeWhile ?P (rev fn) @ dropWhile ?P (rev fn)) = fn"
    by (simp only: takeWhile_dropWhile_id rev_rev_ident)
  then have "fn = rev rest @ 46 # after_last_dot fn"
    by (simp add: d after_last_dot_def)
  then show ?thesis ..
qed

lemma length_four: "length xs = 4 \<Longrightarrow> \<exists>a b c e. xs = [a, b, c, e]"
  by (auto simp: length_Suc_conv eval_nat_numeral)

lemma allowed_file_iff: "allowed_file fn \<longleftrightarrow> has_pdf_extension fn"
proof
  assume a: "allowed_file fn"
  then have "46 \<in> set fn" and l: "lower (after_last_dot fn) = ustr ''pdf''"
    by (simp_all add: allowed_file_def ALLOWED_EXTENSIONS_def)
  then obtain pre where fn: "fn = pre @ 46 # after_last_dot fn"
    using split_last_dot by blast
  have "lower fn = lower pre @ 46 # lower (after_last_dot fn)"
    by (subst fn) (simp add: lower_def lower_char_def)
  with l have "lower fn = lower pre @ ustr ''.pdf''"
    by (simp add: ustr_def)
  then show "has_pdf_extension fn"
    by (simp add: has_pdf_extension_def endswith_def)
next
  assume "has_pdf_extension fn"
  then have e: "length (ustr ''.pdf'') \<le> length (lower fn) \<and>
      drop (length (lower fn) - length (ustr ''.pdf'')) (lower fn) = ustr ''.pdf''"
    by (simp only: has_pdf_extension_def endswith_def)
  have l4: "length (ustr ''.pdf'') = 4" by (simp add: ustr_def)
  have ll: "length (lower fn) = length fn" by (simp add: lower_def)
  from e have len: "4 \<le> length fn" and d: "drop (length fn - 4) (lower fn) = ustr ''.pdf''"
    by (simp_all only: l4 ll)
  let ?suf = "drop (length fn - 4) fn"
  have fn: "fn = take (length fn - 4) fn @ ?suf" by simp
  from len have "length ?suf = 4" by simp
  then obtain a b c e where suf: "?suf = [a, b, c, e]"
    using length_four by blast
  from d have "map lower_char ?suf = ustr ''.pdf''"
    by (simp add: lower_def drop_map)
  with suf have abc: "a = 46" "lower_char b = 112" "lower_char c = 100" "lower_char e = 102"
    by (simp_all add: ustr_def)
  from abc(2-4) have nd: "46 \<notin> set [b, c, e]"
    by (auto simp: lower_char_def split: if_splits)
  from fn suf abc(1) have fn': "fn = take (length fn - 4) fn @ 46 # [b, c, e]"
    by simp
  have "after_last_dot fn = [b, c, e]"
    by (subst fn') (rule after_last_dot_append [OF nd])
  moreover have "lower [b, c, e] = ustr ''pdf''"
    using abc(2-4) by (simp add: lower_def ustr_def)
  moreover have "46 \<in> set fn"
    by (subst fn') simp
  ultimately show "allowed_file fn"
    by (simp add: allowed_file_def ALLOWED_EXTENSIONS_def)
qed


lemma has_error_key_error_body [simp]: "has_error_key (error_body m)"
  by (simp add: has_error_key_def error_body_def)

lemma post_process_pdf_too_large:
  assumes "request_files req = Inl RequestEntityTooLarge"
  shows "post_process_pdf env req w = (too_large, w)"
  using assms
  by (simp add: post_process_pdf_def process_pdf_def outer_except_def serve_def)

lemma post_process_pdf_rejected:
  assumes "request_files req = Inr (form_files req)"
    and "map_of (form_files req) (ustr ''pdf'') = None \<or>
         (\<exists>f. map_of (form_files req) (ustr ''pdf'') = Some f \<and>
              (filename f = [] \<or> \<not> allowed_file (filename f)))"
  shows "fst (fst (post_process_pdf env req w)) = 400 \<and>
         has_error_key (snd (fst (post_process_pdf env req w)))"
  using assms
  by (auto simp: post_process_pdf_def process_pdf_def serve_def)

text \<open>
  C1, as stated, fails. Reading \<open>request.files\<close> comes before every check of the form, and
  when it raises \<open>RequestEntityTooLarge\<close> the answer is 413: so a request that is longer
  than 4 MB and has no \<open>pdf\<close> part gets 413, not 400, and so does a request within the
  length limit that has no \<open>pdf\<close> part and that the form parser refuses (here 1001 text
  fields). And the extension is compared without regard to letter case: the file name
  \<open>a.PDF\<close> does not end in \<open>.pdf\<close>, yet the upload is processed and answered with 200.
\<close>

theorem oversized_request_without_file_is_413:
  "map_of (form_files oversized_request) (ustr ''pdf'') = None \<and>
   fst (fst (post_process_pdf sample_env oversized_request fresh_world)) = 413 \<and>
   content_length crowded_request \<le> MAX_CONTENT_LENGTH \<and>
   map_of (form_files crowded_request) (ustr ''pdf'') = None \<and>
   fst (fst (post_process_pdf sample_env crowded_request fresh_world)) = 413 \<and>
   map_of (form_files sample_request) (ustr ''pdf'') = Some sample_upload \<and>
   \<not> endswith (ustr ''.pdf'') (filename sample_upload) \<and>
   fst (fst (post_process_pdf sample_env sample_request fresh_world)) = 200"
proof -
  have 1: "map_of (form_files oversized_request) (ustr ''pdf'') = None"
    by (simp add: oversized_request_def)
  have "request_files oversized_request = Inl RequestEntityTooLarge"
    by (simp add: request_files_def oversized_request_def MAX_CONTENT_LENGTH_def)
  then have 2: "fst (fst (post_process_pdf sample_env oversized_request fresh_world)) = 413"
    by (simp add: post_process_pdf_too_large too_large_def)
  have 3: "content_length crowded_request \<le> MAX_CONTENT_LENGTH"
    by (simp add: crowded_request_def MAX_CONTENT_LENGTH_def)
  have 4: "map_of (form_files crowded_request) (ustr ''pdf'') = None"
    by (simp add: crowded_request_def)
  have "request_files crowded_request = Inl RequestEntityTooLarge"
    by (simp add: request_files_def crowded_request_def MAX_CONTENT_LENGTH_def)
  then have 5: "fst (fst (post_process_pdf sample_env crowded_request fresh_world)) = 413"
    by (simp add: post_process_pdf_too_large too_large_def)
  have 6: "map_of (form_files sample_request) (ustr ''pdf'') = Some sample_upload"
    by (simp add: sample_request_def)
  have 7: "\<not> endswith (ustr ''.pdf'') (filename sample_upload)"
    by (simp add: endswith_def sample_upload_def ustr_def)
  have s: "save_error sample_env (length (calls fresh_world))
      (unique_path sample_env sample_upload fresh_world) = None"
    by (simp add: sample_env_def)
  have 8: "fst (fst (post_process_pdf sample_env sample_request fresh_world)) = 200"
    by (simp add: post_process_pdf_status [OF accepted_sample s])
       (simp add: sample_env_def ustr_def strip_def lstrip_def rstrip_def isspace_def)
  from 1 2 3 4 5 6 7 8 show ?thesis by blast
qed

text \<open>
  C1, amended. When reading \<open>request.files\<close> raises \<open>RequestEntityTooLarge\<close>, as it does
  for every request whose body is longer than 4 MB and for every request whose form the
  parser refuses as too large, the answer is HTTP 413 with a JSON error body, whatever the
  form holds. When \<open>request.files\<close> is read without an exception and the form has no
  \<open>pdf\<close> file part, or the file part has an empty filename, or the filename does not end
  in \<open>.pdf\<close>, letter case apart, the answer is HTTP 400 with a JSON body with an \<open>error\<close>
  key. When the request passes these checks, the file is saved and the extraction returns
  text that is not blank, the generation runs and the answer is HTTP 200.
\<close>

theorem process_pdf_status_codes:
  "(MAX_CONTENT_LENGTH < content_length req \<or> request_files req = Inl RequestEntityTooLarge \<longrightarrow>
      fst (fst (post_process_pdf env req w)) = 413 \<and>
      has_error_key (snd (fst (post_process_pdf env req w)))) \<and>
   (request_files req = Inr (form_files req) \<and>
    (map_of (form_files req) (ustr ''pdf'') = None \<or>
     (\<exists>f. map_of (form_files req) (ustr ''pdf'') = Some f \<and>
          (filename f = [] \<or> \<not> has_pdf_extension (filename f)))) \<longrightarrow>
      fst (fst (post_process_pdf env req w)) = 400 \<and>
      has_error_key (snd (fst (post_process_pdf env req w)))) \<and>
   (\<forall>f t. accepted req f \<and>
          save_error env (length (calls w)) (unique_path env f w) = None \<and>
          extract_text env (Suc (length (calls w))) (unique_path env f w) = Inr t \<and>
          strip t \<noteq> [] \<longrightarrow>
      fst (fst (post_process_pdf env req w)) = 200)"
proof (intro conjI allI impI)
  assume "MAX_CONTENT_LENGTH < content_length req \<or> request_files req = Inl RequestEntityTooLarge"
  then have "request_files req = Inl RequestEntityTooLarge"
    by (auto simp: request_files_def)
  then show "fst (fst (post_process_pdf env req w)) = 413"
    and "has_error_key (snd (fst (post_process_pdf env req w)))"
    by (simp_all add: post_process_pdf_too_large too_large_def)
next
  assume a: "request_files req = Inr (form_files req) \<and>
    (map_of (form_files req) (ustr ''pdf'') = None \<or>
     (\<exists>f. map_of (form_files req) (ustr ''pdf'') = Some f \<and>
          (filename f = [] \<or> \<not> has_pdf_extension (filename f))))"
  then have "fst (fst (post_process_pdf env req w)) = 400 \<and>
         has_error_key (snd (fst (post_process_pdf env req w)))"
    by (intro post_process_pdf_rejected) (simp_all add: allowed_file_iff)
  then show "fst (fst (post_process_pdf env req w)) = 400"
    and "has_error_key (snd (fst (post_process_pdf env req w)))"
    by simp_all
next
  fix f t
  assume a: "accepted req f \<and>
          save_error env (length (calls w)) (unique_path env f w) = None \<and>
          extract_text env (Suc (length (calls w))) (unique_path env f w) = Inr t \<and>
          strip t \<noteq> []"
  then have "accepted req f"
    and "save_error env (length (calls w)) (unique_path env f w) = None"
    by simp_all
  then have "fst (fst (post_process_pdf env req w)) =
     (case extract_text env (Suc (length (calls w))) (unique_path env f w) of
        Inl e \<Rightarrow> 500
      | Inr t \<Rightarrow> if strip t = [] then 400 else 200)"
    by (rule post_process_pdf_status)
  with a show "fst (fst (post_process_pdf env req w)) = 200"
    by simp
qed

theorem process_pdf_status_codes_witness:
  "MAX_CONTENT_LENGTH < content_length oversized_request \<and>
   fst (fst (post_process_pdf sample_env oversized_request fresh_world)) = 413 \<and>
   request_files crowded_request = Inl RequestEntityTooLarge \<and>
   fst (fst (post_process_pdf sample_env crowded_request fresh_world)) = 413 \<and>
   request_files (sample_request\<lparr>form_files := []\<rparr>) =
     Inr (form_files (sample_request\<lparr>form_files := []\<rparr>)) \<and>
   map_of (form_files (sample_request\<lparr>form_files := []\<rparr>)) (ustr ''pdf'') = None \<and>
   fst (fst (post_process_pdf sample_env (sample_request\<lparr>form_files := []\<rparr>) fresh_world)) = 400 \<and>
   accepted sample_request sample_upload \<and>
   extract_text sample_env (Suc (length (calls fresh_world)))
     (unique_path sample_env sample_upload fresh_world) = Inr (ustr ''Cells'') \<and>
   strip (ustr ''Cells'') \<noteq> [] \<and>
   fst (fst (post_process_pdf sample_env sample_request fresh_world)) = 200"
proof -
  have 1: "MAX_CONTENT_LENGTH < content_length oversized_request"
    by (simp add: oversized_request_def MAX_CONTENT_LENGTH_def)
  have r: "request_files crowded_request = Inl RequestEntityTooLarge"
    by (simp add: request_files_def crowded_request_def MAX_CONTENT_LENGTH_def)
  have 2: "request_files (sample_request\<lparr>form_files := []\<rparr>) =
     Inr (form_files (sample_request\<lparr>form_files := []\<rparr>))"
    by (simp add: request_files_def sample_request_def MAX_CONTENT_LENGTH_def)
  have 3: "map_of (form_files (sample_request\<lparr>form_files := []\<rparr>)) (ustr ''pdf'') = None"
    by simp
  have s: "save_error sample_env (length (calls fresh_world))
      (unique_path sample_env sample_upload fresh_world) = None"
    by (simp add: sample_env_def)
  have 4: "extract_text sample_env (Suc (length (calls fresh_world)))
     (unique_path sample_env sample_upload fresh_world) = Inr (ustr ''Cells'')"
    by (simp add: sample_env_def)
  have 5: "strip (ustr ''Cells'') \<noteq> []"
    by (simp add: ustr_def strip_def lstrip_def rstrip_def isspace_def)
  from process_pdf_status_codes [of oversized_request sample_env fresh_world] 1
  have a: "fst (fst (post_process_pdf sample_env oversized_request fresh_world)) = 413"
    by blast
  from process_pdf_status_codes [of crowded_request sample_env fresh_world] r
  have a': "fst (fst (post_process_pdf sample_env crowded_request fresh_world)) = 413"
    by blast
  from process_pdf_status_codes [of "sample_request\<lparr>form_files := []\<rparr>" sample_env fresh_world] 2 3
  have b: "fst (fst (post_process_pdf sample_env (sample_request\<lparr>form_files := []\<rparr>) fresh_world)) = 400"
    by blast
  from process_pdf_status_codes [of sample_request sample_env fresh_world] accepted_sample s 4 5
  have c: "fst (fst (post_process_pdf sample_env sample_request fresh_world)) = 200"
    by blast
  from 1 a r a' 2 3 b accepted_sample 4 5 c show ?thesis by blast
qed

subsection \<open>Failures\<close>

lemma generate_summary_failure:
  assumes "fst (create_vector_store env text w) = Inl e \<or>
     (\<exists>vs. fst (create_vector_store env text w) = Inr vs \<and>
           qa_run env (length (calls (snd (create_vector_store env text w)))) vs 3 SummaryPrompt = Inl e)"
  shows "fst (generate_summary env text w) = summary_fallback \<and>
         last (logged (snd (generate_summary env text w))) =
           (ERROR, ustr ''Error generating summary: '' @ str_exn e)"
  using assms by (auto simp: generate_summary_def Let_def split_beta)

lemma generate_notes_failure:
  assumes "vectorStore w = None \<and> e = no_vectorStore \<or>
     (\<exists>vs. vectorStore w = Some vs \<and> qa_run env (length (calls w)) vs 4 NotesPrompt = Inl e)"
  shows "fst (generate_notes env text w) = notes_fallback \<and>
         last (logged (snd (generate_notes env text w))) =
           (ERROR, ustr ''Error generating notes: '' @ str_exn e)"
  using assms by (auto simp: generate_notes_def Let_def)

lemma generate_flashcards_failure:
  assumes "vectorStore w = None \<and> e = no_vectorStore \<or>
     (\<exists>vs. vectorStore w = Some vs \<and> qa_run env (length (calls w)) vs 4 FlashcardsPrompt = Inl e)"
  shows "fst (generate_flashcards env text w) =
           [flashcard (uuid_str env (uuid_count w)) (ustr ''Error generating flashcards'')
              (ustr ''Please try again with a different document.'')] \<and>
         last (logged (snd (generate_flashcards env text w))) =
           (ERROR, ustr ''Error generating flashcards: '' @ str_exn e)"
  using assms by (auto simp: generate_flashcards_def Let_def)

lemma generate_study_materials_failure:
  assumes "fst (create_vector_store env text
             (logger INFO (ustr ''Starting study materials generation...'') w)) = Inl e"
  shows "fst (generate_study_materials env text w) =
           study_materials_dict (ustr ''Failed to generate summary.'')
             [ustr ''Failed to generate notes.'']
             [flashcard (uuid_str env (uuid_count w)) (ustr ''Error occurred'')
                (ustr ''Please try again.'')] \<and>
         last (logged (snd (generate_study_materials env text w))) =
           (ERROR, ustr ''Error generating study materials: '' @ str_exn e)"
  using assms
  by (simp add: generate_study_materials_def study_materials_try_def split_beta uuid4_def)

lemma process_saved_extract_failure:
  assumes "extract_text env (length (calls w)) p = Inl e"
  shows "process_saved env p w =
     ((500, error_body (ustr ''Failed to process PDF: '' @ str_exn e)),
      logger ERROR (ustr ''Error processing PDF: '' @ str_exn e)
        (record_call (ExtractText p) (logger INFO (ustr ''Extracting text from PDF...'') w)))"
  using assms by (simp add: process_saved_def Let_def)

lemma process_saved_generates:
  assumes "extract_text env (length (calls w)) p = Inr t" and "strip t \<noteq> []"
  shows "fst (process_saved env p w) =
     (200, fst (generate_study_materials env t
        (logger INFO (ustr ''Generating study materials...'')
           (record_call (ExtractText p) (logger INFO (ustr ''Extracting text from PDF...'') w)))))"
  using assms by (simp add: process_saved_def Let_def split_beta)

lemma post_process_pdf_extract_failure:
  assumes "accepted req f"
    and "save_error env (length (calls w)) (unique_path env f w) = None"
    and "extract_text env (Suc (length (calls w))) (unique_path env f w) = Inl e"
  shows "fst (post_process_pdf env req w) =
           (500, error_body (ustr ''Failed to process PDF: '' @ str_exn e)) \<and>
         butlast (logged (snd (post_process_pdf env req w))) =
           logged w @
             [(INFO, ustr ''File uploaded: '' @ unique_path env f w),
              (INFO, ustr ''Extracting text from PDF...''),
              (ERROR, ustr ''Error processing PDF: '' @ str_exn e)]"
  using assms(3)
  by (simp add: post_process_pdf_accepted [OF assms(1,2)] Let_def
      process_saved_extract_failure cleanup_logged butlast_append)

lemma post_process_pdf_save_failure:
  assumes "accepted req f"
    and "save_error env (length (calls w)) (unique_path env f w) = Some (Error m)"
  shows "fst (post_process_pdf env req w) =
           (500, error_body (ustr ''An unexpected error occurred'')) \<and>
         last (logged (snd (post_process_pdf env req w))) = (ERROR, ustr ''Unexpected error: '' @ m)"
  using assms
  by (simp add: accepted_def post_process_pdf_def process_pdf_def
      unique_path_def serve_def outer_except_def Let_def split_beta uuid4_def)


text \<open>
  C4, as stated, fails. A failure of the text extraction is answered with HTTP 500 and the
  message \<open>Failed to process PDF: \<close> followed by the text of the exception, in which
  \<open>Please try again\<close> does not occur; a failure of the embedding is answered with HTTP 200
  and the fallback study materials. The two payloads are not the same.
\<close>

theorem failure_payloads_differ:
  "fst (post_process_pdf unreadable_env sample_request fresh_world) =
     (500, error_body (ustr ''Failed to process PDF: bad xref'')) \<and>
   \<not> contains (ustr ''Please try again'') (ustr ''Failed to process PDF: bad xref'') \<and>
   fst (post_process_pdf offline_env sample_request fresh_world) =
     (200, study_materials_dict (ustr ''Failed to generate summary.'')
             [ustr ''Failed to generate notes.'']
             [flashcard (ustr ''u'' @ [1]) (ustr ''Error occurred'') (ustr ''Please try again.'')])"
proof -
  have su: "save_error unreadable_env (length (calls fresh_world))
      (unique_path unreadable_env sample_upload fresh_world) = None"
    by (simp add: unreadable_env_def sample_env_def)
  have eu: "extract_text unreadable_env (Suc (length (calls fresh_world)))
      (unique_path unreadable_env sample_upload fresh_world) = Inl (Error (ustr ''bad xref''))"
    by (simp add: unreadable_env_def)
  have 1: "fst (post_process_pdf unreadable_env sample_request fresh_world) =
     (500, error_body (ustr ''Failed to process PDF: bad xref''))"
    using post_process_pdf_extract_failure [OF accepted_sample su eu]
    by (simp add: ustr_def)
  have 2: "\<not> contains (ustr ''Please try again'') (ustr ''Failed to process PDF: bad xref'')"
    by (simp add: ustr_def startswith_def)
  have so: "save_error offline_env (length (calls fresh_world))
      (unique_path offline_env sample_upload fresh_world) = None"
    by (simp add: offline_env_def sample_env_def)
  have eo: "\<And>n p. extract_text offline_env n p = Inr (ustr ''Cells'')"
    by (simp add: offline_env_def sample_env_def)
  have nb: "strip (ustr ''Cells'') \<noteq> []"
    by (simp add: ustr_def strip_def lstrip_def rstrip_def isspace_def)
  have co: "\<And>t w. fst (create_vector_store offline_env t w) = Inl (Error (ustr ''no model''))"
    by (simp add: create_vector_store_def offline_env_def sample_env_def Let_def)
  have uo: "uuid_str offline_env (Suc (uuid_count fresh_world)) = ustr ''u'' @ [1]"
    by (simp add: offline_env_def sample_env_def fresh_world_def)
  have 3: "fst (post_process_pdf offline_env sample_request fresh_world) =
     (200, study_materials_dict (ustr ''Failed to generate summary.'')
             [ustr ''Failed to generate notes.'']
             [flashcard (ustr ''u'' @ [1]) (ustr ''Error occurred'') (ustr ''Please try again.'')])"
    by (simp add: post_process_pdf_accepted [OF accepted_sample so] Let_def
        process_saved_generates [OF eo nb] generate_study_materials_failure [OF co] uo)
  from 1 2 3 show ?thesis by blast
qed

text \<open>
  C4, amended. Every failure raised inside a generation operation is caught there, logged
  at error level with the text of the exception, and replaced by a fixed fallback value of
  that operation: \<open>generate_summary\<close> returns \<open>Failed to generate summary. Please try again.\<close>,
  \<open>generate_notes\<close> the list holding \<open>Failed to generate notes. Please try again.\<close>,
  \<open>generate_flashcards\<close> one record with a new id, the question
  \<open>Error generating flashcards\<close> and the answer \<open>Please try again with a different document.\<close>,
  and \<open>generate_study_materials\<close> the study materials \<open>Failed to generate summary.\<close>,
  \<open>Failed to generate notes.\<close> and one record \<open>Error occurred\<close> / \<open>Please try again.\<close>.
  In the handler a failure of the extraction is caught, logged, and answered with HTTP 500
  and the error \<open>Failed to process PDF: \<close> followed by the text of the exception; a failure
  to save the upload is caught, logged, and answered with HTTP 500 and the error
  \<open>An unexpected error occurred\<close>.
\<close>

theorem failures_become_fallbacks:
  "(\<forall>e. fst (create_vector_store env text w) = Inl e \<or>
        (\<exists>vs. fst (create_vector_store env text w) = Inr vs \<and>
              qa_run env (length (calls (snd (create_vector_store env text w)))) vs 3
                SummaryPrompt = Inl e) \<longrightarrow>
      fst (generate_summary env text w) = summary_fallback \<and>
      last (logged (snd (generate_summary env text w))) =
        (ERROR, ustr ''Error generating summary: '' @ str_exn e)) \<and>
   (\<forall>e. vectorStore w = None \<and> e = no_vectorStore \<or>
        (\<exists>vs. vectorStore w = Some vs \<and>
              qa_run env (length (calls w)) vs 4 NotesPrompt = Inl e) \<longrightarrow>
      fst (generate_notes env text w) = notes_fallback \<and>
      last (logged (snd (generate_notes env text w))) =
        (ERROR, ustr ''Error generating notes: '' @ str_exn e)) \<and>
   (\<forall>e. vectorStore w = None \<and> e = no_vectorStore \<or>
        (\<exists>vs. vectorStore w = Some vs \<and>
              qa_run env (length (calls w)) vs 4 FlashcardsPrompt = Inl e) \<longrightarrow>
      fst (generate_flashcards env text w) =
        [flashcard (uuid_str env (uuid_count w)) (ustr ''Error generating flashcards'')
           (ustr ''Please try again with a different document.'')] \<and>
      last (logged (snd (generate_flashcards env text w))) =
        (ERROR, ustr ''Error generating flashcards: '' @ str_exn e)) \<and>
   (\<forall>e. fst (create_vector_store env text
             (logger INFO (ustr ''Starting study materials generation...'') w)) = Inl e \<longrightarrow>
      fst (generate_study_materials env text w) =
        study_materials_dict (ustr ''Failed to generate summary.'')
          [ustr ''Failed to generate notes.'']
          [flashcard (uuid_str env (uuid_count w)) (ustr ''Error occurred'')
             (ustr ''Please try again.'')] \<and>
      last (logged (snd (generate_study_materials env text w))) =
        (ERROR, ustr ''Error generating study materials: '' @ str_exn e)) \<and>
   (\<forall>f e. accepted req f \<and>
          save_error env (length (calls w)) (unique_path env f w) = None \<and>
          extract_text env (Suc (length (calls w))) (unique_path env f w) = Inl e \<longrightarrow>
      fst (post_process_pdf env req w) =
        (500, error_body (ustr ''Failed to process PDF: '' @ str_exn e)) \<and>
      butlast (logged (snd (post_process_pdf env req w))) =
        logged w @
          [(INFO, ustr ''File uploaded: '' @ unique_path env f w),
           (INFO, ustr ''Extracting text from PDF...''),
           (ERROR, ustr ''Error processing PDF: '' @ str_exn e)]) \<and>
   (\<forall>f m. accepted req f \<and>
          save_error env (length (calls w)) (unique_path env f w) = Some (Error m) \<longrightarrow>
      fst (post_process_pdf env req w) =
        (500, error_body (ustr ''An unexpected error occurred'')) \<and>
      last (logged (snd (post_process_pdf env req w))) =
        (ERROR, ustr ''Unexpected error: '' @ m))"
proof (intro conjI allI)
  fix e
  show "fst (create_vector_store env text w) = Inl e \<or>
        (\<exists>vs. fst (create_vector_store env text w) = Inr vs \<and>
              qa_run env (length (calls (snd (create_vector_store env text w)))) vs 3
                SummaryPrompt = Inl e) \<longrightarrow>
      fst (generate_summary env text w) = summary_fallback \<and>
      last (logged (snd (generate_summary env text w))) =
        (ERROR, ustr ''Error generating summary: '' @ str_exn e)"
    by (rule impI) (rule generate_summary_failure)
  show "vectorStore w = None \<and> e = no_vectorStore \<or>
        (\<exists>vs. vectorStore w = Some vs \<and>
              qa_run env (length (calls w)) vs 4 NotesPrompt = Inl e) \<longrightarrow>
      fst (generate_notes env text w) = notes_fallback \<and>
      last (logged (snd (generate_notes env text w))) =
        (ERROR, ustr ''Error generating notes: '' @ str_exn e)"
    by (rule impI) (rule generate_notes_failure)
  show "vectorStore w = None \<and> e = no_vectorStore \<or>
        (\<exists>vs. vectorStore w = Some vs \<and>
              qa_run env (length (calls w)) vs 4 FlashcardsPrompt = Inl e) \<longrightarrow>
      fst (generate_flashcards env text w) =
        [flashcard (uuid_str env (uuid_count w)) (ustr ''Error generating flashcards'')
           (ustr ''Please try again with a different document.'')] \<and>
      last (logged (snd (generate_flashcards env text w))) =
        (ERROR, ustr ''Error generating flashcards: '' @ str_exn e)"
    by (rule impI) (rule generate_flashcards_failure)
  show "fst (create_vector_store env text
             (logger INFO (ustr ''Starting study materials generation...'') w)) = Inl e \<longrightarrow>
      fst (generate_study_materials env text w) =
        study_materials_dict (ustr ''Failed to generate summary.'')
          [ustr ''Failed to generate notes.'']
          [flashcard (uuid_str env (uuid_count w)) (ustr ''Error occurred'')
             (ustr ''Please try again.'')] \<and>
      last (logged (snd (generate_study_materials env text w))) =
        (ERROR, ustr ''Error generating study materials: '' @ str_exn e)"
    by (rule impI) (rule generate_study_materials_failure)
next
  fix f e
  show "accepted req f \<and>
          save_error env (length (calls w)) (unique_path env f w) = None \<and>
          extract_text env (Suc (length (calls w))) (unique_path env f w) = Inl e \<longrightarrow>
      fst (post_process_pdf env req w) =
        (500, error_body (ustr ''Failed to process PDF: '' @ str_exn e)) \<and>
      butlast (logged (snd (post_process_pdf env req w))) =
        logged w @
          [(INFO, ustr ''File uploaded: '' @ unique_path env f w),
           (INFO, ustr ''Extracting text from PDF...''),
           (ERROR, ustr ''Error processing PDF: '' @ str_exn e)]"
  proof
    assume a: "accepted req f \<and>
          save_error env (length (calls w)) (unique_path env f w) = None \<and>
          extract_text env (Suc (length (calls w))) (unique_path env f w) = Inl e"
    then have "accepted req f"
      and "save_error env (length (calls w)) (unique_path env f w) = None"
      and "extract_text env (Suc (length (calls w))) (unique_path env f w) = Inl e"
      by simp_all
    then show "fst (post_process_pdf env req w) =
        (500, error_body (ustr ''Failed to process PDF: '' @ str_exn e)) \<and>
      butlast (logged (snd (post_process_pdf env req w))) =
        logged w @
          [(INFO, ustr ''File uploaded: '' @ unique_path env f w),
           (INFO, ustr ''Extracting text from PDF...''),
           (ERROR, ustr ''Error processing PDF: '' @ str_exn e)]"
      by (rule post_process_pdf_extract_failure)
  qed
next
  fix f m
  show "accepted req f \<and>
          save_error env (length (calls w)) (unique_path env f w) = Some (Error m) \<longrightarrow>
      fst (post_process_pdf env req w) =
        (500, error_body (ustr ''An unexpected error occurred'')) \<and>
      last (logged (snd (post_process_pdf env req w))) =
        (ERROR, ustr ''Unexpected error: '' @ m)"
  proof
    assume a: "accepted req f \<and>
          save_error env (length (calls w)) (unique_path env f w) = Some (Error m)"
    then have "accepted req f"
      and "save_error env (length (calls w)) (unique_path env f w) = Some (Error m)"
      by simp_all
    then show "fst (post_process_pdf env req w) =
        (500, error_body (ustr ''An unexpected error occurred'')) \<and>
      last (logged (snd (post_process_pdf env req w))) =
        (ERROR, ustr ''Unexpected error: '' @ m)"
      by (rule post_process_pdf_save_failure)
  qed
qed

theorem failures_become_fallbacks_witness:
  "fst (create_vector_store offline_env (ustr ''Cells'') fresh_world) =
     Inl (Error (ustr ''no model'')) \<and>
   fst (generate_summary offline_env (ustr ''Cells'') fresh_world) = summary_fallback \<and>
   vectorStore fresh_world = None \<and>
   fst (generate_notes sample_env (ustr ''Cells'') fresh_world) = notes_fallback \<and>
   fst (generate_flashcards sample_env (ustr ''Cells'') fresh_world) =
     [flashcard (uuid_str sample_env (uuid_count fresh_world)) (ustr ''Error generating flashcards'')
        (ustr ''Please try again with a different document.'')] \<and>
   fst (generate_study_materials offline_env (ustr ''Cells'') fresh_world) =
     study_materials_dict (ustr ''Failed to generate summary.'')
       [ustr ''Failed to generate notes.'']
       [flashcard (uuid_str offline_env (uuid_count fresh_world)) (ustr ''Error occurred'')
          (ustr ''Please try again.'')] \<and>
   accepted sample_request sample_upload \<and>
   extract_text unreadable_env (Suc (length (calls fresh_world)))
     (unique_path unreadable_env sample_upload fresh_world) = Inl (Error (ustr ''bad xref'')) \<and>
   fst (post_process_pdf unreadable_env sample_request fresh_world) =
     (500, error_body (ustr ''Failed to process PDF: '' @ ustr ''bad xref'')) \<and>
   save_error full_disk_env (length (calls fresh_world))
     (unique_path full_disk_env sample_upload fresh_world) = Some (Error (ustr ''disk full'')) \<and>
   fst (post_process_pdf full_disk_env sample_request fresh_world) =
     (500, error_body (ustr ''An unexpected error occurred''))"
proof -
  let ?T = "ustr ''Cells''"
  have co: "\<And>w. fst (create_vector_store offline_env ?T w) = Inl (Error (ustr ''no model''))"
    by (simp add: create_vector_store_def offline_env_def sample_env_def Let_def)
  have v: "vectorStore fresh_world = None"
    by (simp add: fresh_world_def)
  have su: "save_error unreadable_env (length (calls fresh_world))
      (unique_path unreadable_env sample_upload fresh_world) = None"
    by (simp add: unreadable_env_def sample_env_def)
  have eu: "extract_text unreadable_env (Suc (length (calls fresh_world)))
      (unique_path unreadable_env sample_upload fresh_world) = Inl (Error (ustr ''bad xref''))"
    by (simp add: unreadable_env_def)
  have sf: "save_error full_disk_env (length (calls fresh_world))
      (unique_path full_disk_env sample_upload fresh_world) = Some (Error (ustr ''disk full''))"
    by (simp add: full_disk_env_def)
  from failures_become_fallbacks [of offline_env ?T fresh_world sample_request] co
  have a: "fst (generate_summary offline_env ?T fresh_world) = summary_fallback"
    and d: "fst (generate_study_materials offline_env ?T fresh_world) =
     study_materials_dict (ustr ''Failed to generate summary.'')
       [ustr ''Failed to generate notes.'']
       [flashcard (uuid_str offline_env (uuid_count fresh_world)) (ustr ''Error occurred'')
          (ustr ''Please try again.'')]"
    by blast+
  from failures_become_fallbacks [of sample_env ?T fresh_world sample_request] v
  have b: "fst (generate_notes sample_env ?T fresh_world) = notes_fallback"
    and c: "fst (generate_flashcards sample_env ?T fresh_world) =
     [flashcard (uuid_str sample_env (uuid_count fresh_world)) (ustr ''Error generating flashcards'')
        (ustr ''Please try again with a different document.'')]"
    by blast+
  from failures_become_fallbacks [of unreadable_env ?T fresh_world sample_request]
    accepted_sample su eu
  have e: "fst (post_process_pdf unreadable_env sample_request fresh_world) =
     (500, error_body (ustr ''Failed to process PDF: '' @ str_exn (Error (ustr ''bad xref''))))"
    by blast
  from failures_become_fallbacks [of full_disk_env ?T fresh_world sample_request]
    accepted_sample sf
  have f: "fst (post_process_pdf full_disk_env sample_request fresh_world) =
     (500, error_body (ustr ''An unexpected error occurred''))"
    by blast
  from e have e': "fst (post_process_pdf unreadable_env sample_request fresh_world) =
     (500, error_body (ustr ''Failed to process PDF: '' @ ustr ''bad xref''))"
    by simp
  from co [of fresh_world] a v b c d accepted_sample eu e' sf f show ?thesis
    by (intro conjI)
qed

end
